theory Spec2Isabelle
  imports Main "HOL-Library.Sublist"
begin

section \<open>Tables\<close>

text \<open>
  The notebook \<^verbatim>\<open>GHG_Emissions_Prediction.ipynb\<close> works on pandas tables. A table is
  an ordered list of column labels and an ordered list of rows; a row holds one cell per
  column, in the order of the labels. The row index is not represented: every table of the
  notebook is numbered \<open>0, 1, 2, ...\<close> (\<^verbatim>\<open>read_excel\<close> numbers the rows so, and both
  concatenations are called with \<^verbatim>\<open>ignore_index=True\<close>), so the position of a row in
  the list is its index.

  A label is a text, or some other value of a header cell (a number), or the missing value
  that the string accessor of pandas puts in the place of a label that is not a text.
  A cell is a text, an integer, the missing value \<^verbatim>\<open>NaN\<close>, or any other value, which
  the notebook only carries along.
\<close>

datatype label = Lbl string | Num int | NaL

datatype 'v cell = Text string | Whole int | NaN | Other 'v

record 'v frame =
  columns :: "label list"
  rows :: "'v cell list list"

text \<open>Every table that pandas builds has as many cells in each row as it has columns.\<close>

definition wf_frame :: "'v frame \<Rightarrow> bool" where
  "wf_frame df = list_all (\<lambda>r. length r = length (columns df)) (rows df)"

text \<open>
  Exceptions. All of them are subclasses of \<^verbatim>\<open>Exception\<close>, which is what the handler of
  the ingestion loop catches; \<open>str\<close> is the message that \<^verbatim>\<open>f"{e}"\<close> prints.
\<close>

datatype error =
    ValueError string
  | FileNotFoundError string
  | InvalidIndexError string
  | OtherException string

fun str :: "error \<Rightarrow> string" where
  "str (ValueError m) = m"
| "str (FileNotFoundError m) = m"
| "str (InvalidIndexError m) = m"
| "str (OtherException m) = m"

section \<open>The pandas operations the notebook calls\<close>

subsection \<open>\<^verbatim>\<open>df[key] = value\<close> with a scalar value\<close>

text \<open>
  An existing label keeps its place and every column that carries it is overwritten; a new
  label is added as the last column.
\<close>

definition setitem :: "'v frame \<Rightarrow> label \<Rightarrow> 'v cell \<Rightarrow> 'v frame" where
  "setitem df key v =
     (if key \<in> set (columns df)
      then df\<lparr>rows := map (\<lambda>r. map (\<lambda>(c, x). if c = key then v else x) (zip (columns df) r))
                          (rows df)\<rparr>
      else df\<lparr>columns := columns df @ [key], rows := map (\<lambda>r. r @ [v]) (rows df)\<rparr>)"

subsection \<open>\<^verbatim>\<open>df.columns = df.columns.str.strip()\<close>\<close>

text \<open>
  Python's \<^verbatim>\<open>str.strip()\<close> removes the white space at both ends; these are the white
  space characters among the first 256 code points.
\<close>

definition is_space :: "char \<Rightarrow> bool" where
  "is_space c = (of_char c \<in> set [9, 10, 11, 12, 13, 28, 29, 30, 31, 32, 133, 160 :: nat])"

definition strip :: "string \<Rightarrow> string" where
  "strip s = rev (dropWhile is_space (rev (dropWhile is_space s)))"

text \<open>
  The string accessor maps a label that is not a text to the missing value. It refuses an
  index without any text in it, which cannot happen here: the two labels \<^verbatim>\<open>'Source'\<close>
  and \<^verbatim>\<open>'Year'\<close> are in the index before it is stripped.
\<close>

fun strip_label :: "label \<Rightarrow> label" where
  "strip_label (Lbl s) = Lbl (strip s)"
| "strip_label (Num n) = NaL"
| "strip_label NaL = NaL"

definition strip_columns :: "'v frame \<Rightarrow> 'v frame" where
  "strip_columns df = df\<lparr>columns := map strip_label (columns df)\<rparr>"

subsection \<open>\<^verbatim>\<open>df.rename(columns={...}, inplace=True)\<close>\<close>

text \<open>The dictionary is an association list; a label that is not a key is kept.\<close>

fun rename_label :: "(string \<times> string) list \<Rightarrow> label \<Rightarrow> label" where
  "rename_label m (Lbl s) = (case map_of m s of Some s' \<Rightarrow> Lbl s' | None \<Rightarrow> Lbl s)"
| "rename_label m (Num n) = Num n"
| "rename_label m NaL = NaL"

definition rename :: "'v frame \<Rightarrow> (string \<times> string) list \<Rightarrow> 'v frame" where
  "rename df m = df\<lparr>columns := map (rename_label m) (columns df)\<rparr>"

subsection \<open>\<^verbatim>\<open>pd.concat(frames, ignore_index=True)\<close>\<close>

text \<open>
  The cell of a row under a label: the first column with that label, and \<^verbatim>\<open>NaN\<close>
  when the table has no such column.
\<close>

definition lookup :: "label list \<Rightarrow> 'v cell list \<Rightarrow> label \<Rightarrow> 'v cell" where
  "lookup cols r c = (case map_of (zip cols r) c of Some x \<Rightarrow> x | None \<Rightarrow> NaN)"

text \<open>The labels of several tables, each once, in the order of their first appearance.\<close>

definition union_columns :: "label list list \<Rightarrow> label list" where
  "union_columns css = rev (remdups (rev (concat css)))"

text \<open>
  The columns of the result: when all tables have the same list of labels it is that list
  (also with a label twice in it); otherwise it is the union of the labels.
\<close>

definition combined_columns :: "'v frame list \<Rightarrow> label list" where
  "combined_columns dfs =
     (if list_all (\<lambda>df. columns df = columns (hd dfs)) (tl dfs)
      then columns (hd dfs)
      else union_columns (map columns dfs))"

text \<open>A table whose labels are not the new ones is realigned to them, label by label.\<close>

definition reindex :: "label list \<Rightarrow> 'v frame \<Rightarrow> 'v frame" where
  "reindex new df =
     (if columns df = new then df
      else \<lparr>columns = new, rows = map (\<lambda>r. map (lookup (columns df) r) new) (rows df)\<rparr>)"

text \<open>
  Concatenation along the rows, with the outer join of the columns. It raises on an empty
  list, and when a table that has to be realigned carries a label twice.

  The cells are carried as they are. pandas also gives every column of the result one
  type, and converts the integers of a column to floats when the column gets a missing
  value by the realignment or holds floats in another table; a column that is there in
  every table with integers only, or with text, keeps its cells. So what is said below
  about cells is said of the two tags, which are such columns, and of text; integers and
  missing values elsewhere are left open (\<open>carried\<close>).
\<close>

definition pd_concat :: "'v frame list \<Rightarrow> error + 'v frame" where
  "pd_concat dfs =
     (if dfs = [] then Inl (ValueError ''No objects to concatenate'')
      else let new = combined_columns dfs in
        if list_ex (\<lambda>df. columns df \<noteq> new \<and> \<not> distinct (columns df)) dfs
        then Inl (InvalidIndexError ''Reindexing only valid with uniquely valued Index objects'')
        else Inr \<lparr>columns = new, rows = concat (map (\<lambda>df. rows (reindex new df)) dfs)\<rparr>)"

subsection \<open>\<^verbatim>\<open>pd.read_excel(excel_file, sheet_name=...)\<close>\<close>

text \<open>
  The workbook is the input of the notebook. The file may be missing; when it is there it
  holds named sheets, and reading a sheet gives its table. Reading a sheet that the
  workbook does not have raises \<^verbatim>\<open>ValueError\<close>.
\<close>

datatype 'v workbook = NoFile | Workbook "(string \<times> 'v frame) list"

definition read_excel :: "string \<Rightarrow> 'v workbook \<Rightarrow> string \<Rightarrow> error + 'v frame" where
  "read_excel excel_file wb sheet_name =
     (case wb of
        NoFile \<Rightarrow>
          Inl (FileNotFoundError
                 (''[Errno 2] No such file or directory: '' @ [CHR 0x27] @ excel_file @ [CHR 0x27]))
      | Workbook sheets \<Rightarrow>
          (case map_of sheets sheet_name of
             None \<Rightarrow>
               Inl (ValueError (''Worksheet named '' @ [CHR 0x27] @ sheet_name @ [CHR 0x27]
                                @ '' not found''))
           | Some df \<Rightarrow> Inr df))"

section \<open>Formatting an integer\<close>

text \<open>\<^verbatim>\<open>f"{year}"\<close> writes the year in decimal, with a minus sign when it is negative.\<close>

definition digit :: "nat \<Rightarrow> char" where
  "digit d = ''0123456789'' ! d"

fun digits :: "nat \<Rightarrow> string" where
  "digits n = (if n < 10 then [digit n] else digits (n div 10) @ [digit (n mod 10)])"

declare digits.simps [simp del]

definition str_int :: "int \<Rightarrow> string" where
  "str_int i = (if i < 0 then CHR ''-'' # digits (nat (- i)) else digits (nat i))"

section \<open>The ingestion loop (cell 464213c7)\<close>

text \<open>
  \<^verbatim>\<open>
  all_data = []
  for year in years:
      try:
          df_com = pd.read_excel(excel_file, sheet_name=f'{year}_Detail_Commodity')
          df_ind = pd.read_excel(excel_file, sheet_name=f'{year}_Detail_Industry')
          df_com['Source'] = 'Commodity'
          df_ind['Source'] = 'Industry'
          df_com['Year'] = df_ind['Year'] = year
          df_com.columns = df_com.columns.str.strip()
          df_ind.columns = df_ind.columns.str.strip()
          df_com.rename(columns={'Commodity Code': 'Code', 'Commodity Name': 'Name'}, inplace=True)
          df_ind.rename(columns={'Industry Code': 'Code', 'Industry Name': 'Name'}, inplace=True)
          all_data.append(pd.concat([df_com, df_ind], ignore_index=True))
      except Exception as e:
          print(f"Error processing year {year}: {e}")
  \<close>
  The reader \<open>rd\<close> stands for \<^verbatim>\<open>pd.read_excel(excel_file, sheet_name=...)\<close>: it maps
  the name of a sheet to the table read or to the exception raised. Tables are values
  here and the state is the list \<^verbatim>\<open>all_data\<close> and what has been printed; the loop
  on a store of objects, with the changes in place, follows below and is shown to build
  the same tables (\<open>ingest_store_tables\<close>).
\<close>

definition commodity_names :: "(string \<times> string) list" where
  "commodity_names = [(''Commodity Code'', ''Code''), (''Commodity Name'', ''Name'')]"

definition industry_names :: "(string \<times> string) list" where
  "industry_names = [(''Industry Code'', ''Code''), (''Industry Name'', ''Name'')]"

definition try_body :: "(string \<Rightarrow> error + 'v frame) \<Rightarrow> int \<Rightarrow> error + 'v frame" where
  "try_body rd year =
     (case rd (str_int year @ ''_Detail_Commodity'') of
        Inl e \<Rightarrow> Inl e
      | Inr df_com \<Rightarrow>
     (case rd (str_int year @ ''_Detail_Industry'') of
        Inl e \<Rightarrow> Inl e
      | Inr df_ind \<Rightarrow>
        let df_com = setitem df_com (Lbl ''Source'') (Text ''Commodity'');
            df_ind = setitem df_ind (Lbl ''Source'') (Text ''Industry'');
            df_com = setitem df_com (Lbl ''Year'') (Whole year);
            df_ind = setitem df_ind (Lbl ''Year'') (Whole year);
            df_com = strip_columns df_com;
            df_ind = strip_columns df_ind;
            df_com = rename df_com commodity_names;
            df_ind = rename df_ind industry_names
        in pd_concat [df_com, df_ind]))"

record 'v state =
  all_data :: "'v frame list"
  stdout :: "string list"

definition loop_body :: "(string \<Rightarrow> error + 'v frame) \<Rightarrow> int \<Rightarrow> 'v state \<Rightarrow> 'v state" where
  "loop_body rd year s =
     (case try_body rd year of
        Inr df \<Rightarrow> s\<lparr>all_data := all_data s @ [df]\<rparr>
      | Inl e \<Rightarrow> s\<lparr>stdout := stdout s @ [''Error processing year '' @ str_int year @ '': '' @ str e]\<rparr>)"

definition ingest :: "(string \<Rightarrow> error + 'v frame) \<Rightarrow> int list \<Rightarrow> 'v state" where
  "ingest rd years = fold (loop_body rd) years \<lparr>all_data = [], stdout = []\<rparr>"

section \<open>The combined table (cell d99bcf77)\<close>

text \<open>\<^verbatim>\<open>df = pd.concat(all_data, ignore_index=True)\<close>, outside any handler.\<close>

definition combined :: "(string \<Rightarrow> error + 'v frame) \<Rightarrow> int list \<Rightarrow> error + 'v frame" where
  "combined rd years = pd_concat (all_data (ingest rd years))"

section \<open>The same loop on a store of objects\<close>

text \<open>
  In Python a table is an object: \<^verbatim>\<open>df_com\<close> and \<^verbatim>\<open>df_ind\<close> name objects that the
  body changes in place, and \<^verbatim>\<open>all_data\<close> holds references to objects. Here the
  objects made so far are a list and an object is known by its position in it;
  \<^verbatim>\<open>read_excel\<close> and \<^verbatim>\<open>concat\<close> make new objects, the statements between
  them change the two objects that the variables name. An exception leaves the store as
  it is at that moment.
\<close>

record 'v store =
  objects :: "'v frame list"
  com_ref :: "nat option"
  ind_ref :: "nat option"
  all_data_refs :: "nat list"
  console :: "string list"

text \<open>A new object, and a change of an object in place.\<close>

definition new_object :: "'v frame \<Rightarrow> 'v store \<Rightarrow> nat \<times> 'v store" where
  "new_object df s = (length (objects s), s\<lparr>objects := objects s @ [df]\<rparr>)"

definition in_place :: "nat \<Rightarrow> ('v frame \<Rightarrow> 'v frame) \<Rightarrow> 'v store \<Rightarrow> 'v store" where
  "in_place a f s = s\<lparr>objects := (objects s)[a := f (objects s ! a)]\<rparr>"

text \<open>The body of the \<^verbatim>\<open>try\<close>, the iteration with its handler, and the loop.\<close>

definition try_body_store ::
  "(string \<Rightarrow> error + 'v frame) \<Rightarrow> int \<Rightarrow> 'v store \<Rightarrow> error option \<times> 'v store" where
  "try_body_store rd year s =
     (case rd (str_int year @ ''_Detail_Commodity'') of
        Inl e \<Rightarrow> (Some e, s)
      | Inr t_com \<Rightarrow>
          let (a, s) = new_object t_com s;
              s = s\<lparr>com_ref := Some a\<rparr>
          in
     (case rd (str_int year @ ''_Detail_Industry'') of
        Inl e \<Rightarrow> (Some e, s)
      | Inr t_ind \<Rightarrow>
          let (b, s) = new_object t_ind s;
              s = s\<lparr>ind_ref := Some b\<rparr>;
              s = in_place a (\<lambda>df. setitem df (Lbl ''Source'') (Text ''Commodity'')) s;
              s = in_place b (\<lambda>df. setitem df (Lbl ''Source'') (Text ''Industry'')) s;
              s = in_place a (\<lambda>df. setitem df (Lbl ''Year'') (Whole year)) s;
              s = in_place b (\<lambda>df. setitem df (Lbl ''Year'') (Whole year)) s;
              s = in_place a strip_columns s;
              s = in_place b strip_columns s;
              s = in_place a (\<lambda>df. rename df commodity_names) s;
              s = in_place b (\<lambda>df. rename df industry_names) s
          in
     (case pd_concat [objects s ! a, objects s ! b] of
        Inl e \<Rightarrow> (Some e, s)
      | Inr t \<Rightarrow>
          let (c, s) = new_object t s
          in (None, s\<lparr>all_data_refs := all_data_refs s @ [c]\<rparr>))))"

definition loop_body_store :: "(string \<Rightarrow> error + 'v frame) \<Rightarrow> int \<Rightarrow> 'v store \<Rightarrow> 'v store" where
  "loop_body_store rd year s =
     (case try_body_store rd year s of
        (None, s') \<Rightarrow> s'
      | (Some e, s') \<Rightarrow>
          s'\<lparr>console := console s' @ [''Error processing year '' @ str_int year @ '': '' @ str e]\<rparr>)"

definition ingest_store :: "(string \<Rightarrow> error + 'v frame) \<Rightarrow> int list \<Rightarrow> 'v store" where
  "ingest_store rd years =
     fold (loop_body_store rd) years
       \<lparr>objects = [], com_ref = None, ind_ref = None, all_data_refs = [], console = []\<rparr>"

text \<open>
  The tables that \<^verbatim>\<open>all_data\<close> refers to, and the references being to objects that exist.
\<close>

definition tables :: "'v store \<Rightarrow> 'v frame list" where
  "tables s = map (\<lambda>a. objects s ! a) (all_data_refs s)"

definition refs_ok :: "'v store \<Rightarrow> bool" where
  "refs_ok s = list_all (\<lambda>a. a < length (objects s)) (all_data_refs s)"

section \<open>Notions used to state the properties\<close>

text \<open>
  What the body of the \<^verbatim>\<open>try\<close> does to one of the two tables: the two tags, the
  stripped labels, the renaming.
\<close>

definition normalize_table :: "string \<Rightarrow> (string \<times> string) list \<Rightarrow> int \<Rightarrow> 'v frame \<Rightarrow> 'v frame" where
  "normalize_table source names year df =
     rename (strip_columns (setitem (setitem df (Lbl ''Source'') (Text source))
                                    (Lbl ''Year'') (Whole year))) names"

text \<open>The same table before the renaming: tagged, with stripped labels.\<close>

definition before_rename :: "string \<Rightarrow> int \<Rightarrow> 'v frame \<Rightarrow> 'v frame" where
  "before_rename source year df =
     strip_columns (setitem (setitem df (Lbl ''Source'') (Text source)) (Lbl ''Year'') (Whole year))"

text \<open>What one iteration appends to \<^verbatim>\<open>all_data\<close>, what it prints, whether it appends.\<close>

definition appended :: "(string \<Rightarrow> error + 'v frame) \<Rightarrow> int \<Rightarrow> 'v frame list" where
  "appended rd year = (case try_body rd year of Inr df \<Rightarrow> [df] | Inl e \<Rightarrow> [])"

definition printed :: "(string \<Rightarrow> error + 'v frame) \<Rightarrow> int \<Rightarrow> string list" where
  "printed rd year =
     (case try_body rd year of
        Inr df \<Rightarrow> []
      | Inl e \<Rightarrow> [''Error processing year '' @ str_int year @ '': '' @ str e])"

definition ingested :: "(string \<Rightarrow> error + 'v frame) \<Rightarrow> int \<Rightarrow> bool" where
  "ingested rd year = (case try_body rd year of Inr df \<Rightarrow> True | Inl e \<Rightarrow> False)"

text \<open>
  Row counts. \<open>year_rows\<close> counts the rows of the two sheets of a year when both are read;
  \<open>read_rows\<close> counts the rows of every sheet of the year that is read, which is the sum
  the specification writes (the industry sheet is read only after the commodity sheet).
\<close>

definition nrows :: "'v frame \<Rightarrow> nat" where
  "nrows df = length (rows df)"

definition year_rows :: "(string \<Rightarrow> error + 'v frame) \<Rightarrow> int \<Rightarrow> nat" where
  "year_rows rd year =
     (case rd (str_int year @ ''_Detail_Commodity'') of
        Inl e \<Rightarrow> 0
      | Inr df_com \<Rightarrow>
     (case rd (str_int year @ ''_Detail_Industry'') of
        Inl e \<Rightarrow> 0
      | Inr df_ind \<Rightarrow> nrows df_com + nrows df_ind))"

definition read_rows :: "(string \<Rightarrow> error + 'v frame) \<Rightarrow> int \<Rightarrow> nat" where
  "read_rows rd year =
     (case rd (str_int year @ ''_Detail_Commodity'') of
        Inl e \<Rightarrow> 0
      | Inr df_com \<Rightarrow>
          nrows df_com +
          (case rd (str_int year @ ''_Detail_Industry'') of Inl e \<Rightarrow> 0 | Inr df_ind \<Rightarrow> nrows df_ind))"

text \<open>
  The rows of a table, each read as a function from labels to cells. Realigning a table to
  more columns changes the lists of cells and not these functions.
\<close>

definition records :: "'v frame \<Rightarrow> (label \<Rightarrow> 'v cell) list" where
  "records df = map (lookup (columns df)) (rows df)"

definition year_records :: "(string \<Rightarrow> error + 'v frame) \<Rightarrow> int \<Rightarrow> (label \<Rightarrow> 'v cell) list" where
  "year_records rd year =
     (case rd (str_int year @ ''_Detail_Commodity'') of
        Inl e \<Rightarrow> []
      | Inr df_com \<Rightarrow>
     (case rd (str_int year @ ''_Detail_Industry'') of
        Inl e \<Rightarrow> []
      | Inr df_ind \<Rightarrow>
          records (normalize_table ''Commodity'' commodity_names year df_com)
          @ records (normalize_table ''Industry'' industry_names year df_ind)))"

text \<open>
  The cells of a row in the columns that carry a label (more than one when the label is
  there twice), the values of a label row by row, and all the values of a label.
\<close>

definition cells_under :: "label list \<Rightarrow> 'v cell list \<Rightarrow> label \<Rightarrow> 'v cell list" where
  "cells_under cols r k = map snd (filter (\<lambda>(c, x). c = k) (zip cols r))"



text \<open>The source and the year of every row, and what they are for the rows of one year.\<close>

definition tags :: "'v frame \<Rightarrow> ('v cell list \<times> 'v cell list) list" where
  "tags df =
     map (\<lambda>r. (cells_under (columns df) r (Lbl ''Source''), cells_under (columns df) r (Lbl ''Year'')))
         (rows df)"

definition year_tags :: "(string \<Rightarrow> error + 'v frame) \<Rightarrow> int \<Rightarrow> ('v cell list \<times> 'v cell list) list" where
  "year_tags rd year =
     (case rd (str_int year @ ''_Detail_Commodity'') of
        Inl e \<Rightarrow> []
      | Inr df_com \<Rightarrow>
     (case rd (str_int year @ ''_Detail_Industry'') of
        Inl e \<Rightarrow> []
      | Inr df_ind \<Rightarrow>
          replicate (nrows df_com) ([Text ''Commodity''], [Whole year])
          @ replicate (nrows df_ind) ([Text ''Industry''], [Whole year])))"

text \<open>
  A sheet has plain tags when it is well formed and, once normalized, has one column
  labelled \<^verbatim>\<open>Source\<close> and one labelled \<^verbatim>\<open>Year\<close>. It fails when a header of the sheet
  is one of the two words with white space around it: the tag is written before the labels
  are stripped, so the stripped header becomes a second column of that name.
\<close>

definition plain_tags :: "string \<Rightarrow> (string \<times> string) list \<Rightarrow> int \<Rightarrow> 'v frame \<Rightarrow> bool" where
  "plain_tags source names year df =
     (wf_frame df
      \<and> count_list (columns (normalize_table source names year df)) (Lbl ''Source'') = 1
      \<and> count_list (columns (normalize_table source names year df)) (Lbl ''Year'') = 1)"

definition plain_year :: "(string \<Rightarrow> error + 'v frame) \<Rightarrow> int \<Rightarrow> bool" where
  "plain_year rd year =
     (case rd (str_int year @ ''_Detail_Commodity'') of
        Inl e \<Rightarrow> True
      | Inr df_com \<Rightarrow>
     (case rd (str_int year @ ''_Detail_Industry'') of
        Inl e \<Rightarrow> True
      | Inr df_ind \<Rightarrow>
          plain_tags ''Commodity'' commodity_names year df_com
          \<and> plain_tags ''Industry'' industry_names year df_ind))"

text \<open>
  The column set of a Detail sheet (section 6 of the specification, and the output of
  cell 3739f73a): the code and the name of its kind, then the headers that the two kinds
  share, here \<open>rest\<close>; white space around a header is allowed, which is what the notebook
  strips. The shared headers are distinct and none of them is a name that the loop
  writes or renames.
\<close>

definition reserved_labels :: "label list" where
  "reserved_labels =
     [Lbl ''Commodity Code'', Lbl ''Commodity Name'', Lbl ''Industry Code'', Lbl ''Industry Name'',
      Lbl ''Code'', Lbl ''Name'', Lbl ''Source'', Lbl ''Year'']"

definition shared_ok :: "label list \<Rightarrow> bool" where
  "shared_ok rest = (distinct rest \<and> list_all (\<lambda>c. c \<notin> set reserved_labels) rest)"

definition detail_sheet :: "string \<Rightarrow> label list \<Rightarrow> 'v frame \<Rightarrow> bool" where
  "detail_sheet kind rest df =
     (wf_frame df
      \<and> map strip_label (columns df) = [Lbl (kind @ '' Code''), Lbl (kind @ '' Name'')] @ rest)"

text \<open>The labels of a normalized table on this column set.\<close>

definition unified_columns :: "label list \<Rightarrow> label list" where
  "unified_columns rest = [Lbl ''Code'', Lbl ''Name''] @ rest @ [Lbl ''Source'', Lbl ''Year'']"

text \<open>The sheets of a year, as far as they are read, have this column set.\<close>

definition on_schema :: "label list \<Rightarrow> (string \<Rightarrow> error + 'v frame) \<Rightarrow> int \<Rightarrow> bool" where
  "on_schema rest rd year =
     ((case rd (str_int year @ ''_Detail_Commodity'') of
         Inl e \<Rightarrow> True | Inr df_com \<Rightarrow> detail_sheet ''Commodity'' rest df_com)
      \<and> (case rd (str_int year @ ''_Detail_Industry'') of
         Inl e \<Rightarrow> True | Inr df_ind \<Rightarrow> detail_sheet ''Industry'' rest df_ind))"

text \<open>
  A record of the combined table carries a record of a source table on the labels \<open>cs\<close>:
  every cell is the same, but for integers and missing values, which the conversion of a
  column may change.
\<close>

fun open_cell :: "'v cell \<Rightarrow> bool" where
  "open_cell (Whole n) = True"
| "open_cell NaN = True"
| "open_cell (Text s) = False"
| "open_cell (Other v) = False"

definition carried :: "label list \<Rightarrow> (label \<Rightarrow> 'v cell) \<Rightarrow> (label \<Rightarrow> 'v cell) \<Rightarrow> bool" where
  "carried cs src res = list_all (\<lambda>c. res c = src c \<or> open_cell (src c)) cs"

text \<open>A label without white space at either end.\<close>

fun no_outer_space :: "label \<Rightarrow> bool" where
  "no_outer_space (Lbl s) = (case s of [] \<Rightarrow> True | c # cs \<Rightarrow> \<not> is_space c \<and> \<not> is_space (last s))"
| "no_outer_space (Num n) = True"
| "no_outer_space NaL = True"

text \<open>
  Auxiliary notions of the proofs: the renaming after the stripping, as one function on
  labels; a table in which each tag has one column and one cell in every row; a table in
  which every cell under a label is a given value.
\<close>

definition relabel :: "(string \<times> string) list \<Rightarrow> label \<Rightarrow> label" where
  "relabel names c = rename_label names (strip_label c)"

text \<open>One column for each tag, one cell for each tag in every row.\<close>

definition tagged :: "'v frame \<Rightarrow> bool" where
  "tagged df =
     (count_list (columns df) (Lbl ''Source'') = 1 \<and> count_list (columns df) (Lbl ''Year'') = 1
      \<and> (\<forall>r\<in>set (rows df). length (cells_under (columns df) r (Lbl ''Source'')) = 1
                          \<and> length (cells_under (columns df) r (Lbl ''Year'')) = 1))"

definition all_cells :: "'v frame \<Rightarrow> label \<Rightarrow> 'v cell \<Rightarrow> bool" where
  "all_cells df k v = (\<forall>r\<in>set (rows df). set (cells_under (columns df) r k) \<subseteq> {v})"

section \<open>Example workbooks\<close>

text \<open>The path the notebook reads from.\<close>

definition excel_file :: string where
  "excel_file = ''C:/Users/HP/Downloads/SupplyChainEmissionFactorsforUSIndustriesCommodities (1).xlsx''"

text \<open>
  A commodity sheet of two rows and an industry sheet of one row, with the first headers of
  the sheets of the workbook; the second header of the commodity sheet carries a space at
  its end.
\<close>

definition commodity_sheet :: "unit frame" where
  "commodity_sheet =
     \<lparr>columns = [Lbl ''Commodity Code'', Lbl ''Commodity Name '', Lbl ''Substance''],
      rows = [[Text ''1111A0'', Text ''Fresh soybeans'', Text ''carbon dioxide''],
              [Text ''1111A0'', Text ''Fresh soybeans'', Text ''methane'']]\<rparr>"

definition industry_sheet :: "unit frame" where
  "industry_sheet =
     \<lparr>columns = [Lbl ''Industry Code'', Lbl ''Industry Name'', Lbl ''Substance''],
      rows = [[Text ''1111A0'', Text ''Oilseed farming'', Text ''carbon dioxide'']]\<rparr>"

text \<open>What the loop appends for a year whose two sheets are these.\<close>

definition year_table :: "int \<Rightarrow> unit frame" where
  "year_table year =
     \<lparr>columns = [Lbl ''Code'', Lbl ''Name'', Lbl ''Substance'', Lbl ''Source'', Lbl ''Year''],
      rows = [[Text ''1111A0'', Text ''Fresh soybeans'', Text ''carbon dioxide'',
               Text ''Commodity'', Whole year],
              [Text ''1111A0'', Text ''Fresh soybeans'', Text ''methane'',
               Text ''Commodity'', Whole year],
              [Text ''1111A0'', Text ''Oilseed farming'', Text ''carbon dioxide'',
               Text ''Industry'', Whole year]]\<rparr>"

text \<open>A workbook with the four sheets of 2015 and 2016.\<close>

definition book_full :: "unit workbook" where
  "book_full = Workbook
     [(''2015_Detail_Commodity'', commodity_sheet), (''2015_Detail_Industry'', industry_sheet),
      (''2016_Detail_Commodity'', commodity_sheet), (''2016_Detail_Industry'', industry_sheet)]"

definition rd_full :: "string \<Rightarrow> error + unit frame" where
  "rd_full = read_excel excel_file book_full"

definition table_full :: "unit frame" where
  "table_full =
     \<lparr>columns = columns (year_table 2015), rows = rows (year_table 2015) @ rows (year_table 2016)\<rparr>"

text \<open>A workbook for 2012 to 2014 in which the industry sheet of 2013 is missing.\<close>

definition book_gap :: "unit workbook" where
  "book_gap = Workbook
     [(''2012_Detail_Commodity'', commodity_sheet), (''2012_Detail_Industry'', industry_sheet),
      (''2013_Detail_Commodity'', commodity_sheet),
      (''2014_Detail_Commodity'', commodity_sheet), (''2014_Detail_Industry'', industry_sheet)]"

definition rd_gap :: "string \<Rightarrow> error + unit frame" where
  "rd_gap = read_excel excel_file book_gap"

definition gap_error :: error where
  "gap_error = ValueError (''Worksheet named '' @ [CHR 0x27] @ ''2013_Detail_Industry'' @ [CHR 0x27]
                           @ '' not found'')"

text \<open>
  The headers that the notebook shows for a commodity sheet (the output of cell 3739f73a)
  after the code and the name; an industry sheet has the same.
\<close>

definition shared_headers :: "label list" where
  "shared_headers =
     [Lbl ''Substance'', Lbl ''Unit'',
      Lbl ''Supply Chain Emission Factors without Margins'',
      Lbl ''Margins of Supply Chain Emission Factors'',
      Lbl ''Supply Chain Emission Factors with Margins'',
      Lbl ''Unnamed: 7'',
      Lbl ''DQ ReliabilityScore of Factors without Margins'',
      Lbl ''DQ TemporalCorrelation of Factors without Margins'',
      Lbl ''DQ GeographicalCorrelation of Factors without Margins'',
      Lbl ''DQ TechnologicalCorrelation of Factors without Margins'',
      Lbl ''DQ DataCollection of Factors without Margins'']"

text \<open>
  A workbook for 2015 and 2016 whose sheets have these headers. The first commodity rows
  are those the notebook shows; a float is written by its thousandths. The notebook shows
  no industry row, the one here is made up.
\<close>

definition detail_commodity :: "nat frame" where
  "detail_commodity =
     \<lparr>columns = [Lbl ''Commodity Code'', Lbl ''Commodity Name''] @ shared_headers,
      rows = [[Text ''1111A0'', Text ''Fresh soybeans, canola, flaxseeds, and other o...'',
               Text ''carbon dioxide'', Text ''kg/2018 USD, purchaser price'',
               Other 354, Other 63, Other 417, NaN, Whole 3, Whole 2, Whole 1, Whole 4, Whole 1],
              [Text ''1111A0'', Text ''Fresh soybeans, canola, flaxseeds, and other o...'',
               Text ''methane'', Text ''kg/2018 USD, purchaser price'',
               Other 1, Other 1, Other 2, NaN, Whole 4, Whole 2, Whole 1, Whole 1, Whole 1]]\<rparr>"

definition detail_industry :: "nat frame" where
  "detail_industry =
     \<lparr>columns = [Lbl ''Industry Code'', Lbl ''Industry Name''] @ shared_headers,
      rows = [[Text ''1111A0'', Text ''Oilseed farming'',
               Text ''carbon dioxide'', Text ''kg/2018 USD, purchaser price'',
               Other 414, Other 73, Other 487, NaN, Whole 4, Whole 3, Whole 1, Whole 4, Whole 1]]\<rparr>"

definition book_detail :: "nat workbook" where
  "book_detail = Workbook
     [(''2015_Detail_Commodity'', detail_commodity), (''2015_Detail_Industry'', detail_industry),
      (''2016_Detail_Commodity'', detail_commodity), (''2016_Detail_Industry'', detail_industry)]"

definition rd_detail :: "string \<Rightarrow> error + nat frame" where
  "rd_detail = read_excel excel_file book_detail"

section \<open>The loop, iteration by iteration\<close>

lemma loop_body_eq:
  "loop_body rd year s = s\<lparr>all_data := all_data s @ appended rd year, stdout := stdout s @ printed rd year\<rparr>"
  by (simp add: loop_body_def appended_def printed_def split: sum.split)

lemma fold_loop_body:
  "fold (loop_body rd) years s =
     s\<lparr>all_data := all_data s @ concat (map (appended rd) years),
       stdout := stdout s @ concat (map (printed rd) years)\<rparr>"
  by (induction years arbitrary: s) (simp_all add: loop_body_eq)

lemma all_data_ingest: "all_data (ingest rd years) = concat (map (appended rd) years)"
  by (simp add: ingest_def fold_loop_body)

lemma stdout_ingest: "stdout (ingest rd years) = concat (map (printed rd) years)"
  by (simp add: ingest_def fold_loop_body)

lemma length_appended: "length (appended rd y) = (if ingested rd y then 1 else 0)"
  by (simp add: appended_def ingested_def split: sum.split)

lemma length_concat_appended:
  "length (concat (map (appended rd) years)) = length (filter (ingested rd) years)"
  by (induction years) (simp_all add: length_appended)

section \<open>Rows and records through the operations\<close>

lemma try_body_normalize:
  "try_body rd year =
     (case rd (str_int year @ ''_Detail_Commodity'') of
        Inl e \<Rightarrow> Inl e
      | Inr df_com \<Rightarrow>
     (case rd (str_int year @ ''_Detail_Industry'') of
        Inl e \<Rightarrow> Inl e
      | Inr df_ind \<Rightarrow>
          pd_concat [normalize_table ''Commodity'' commodity_names year df_com,
                     normalize_table ''Industry'' industry_names year df_ind]))"
  by (simp add: try_body_def normalize_table_def Let_def split: sum.split)

lemma rows_setitem_length: "length (rows (setitem df k v)) = length (rows df)"
  by (simp add: setitem_def)

lemma nrows_normalize: "nrows (normalize_table src names year df) = nrows df"
  by (simp add: nrows_def normalize_table_def rename_def strip_columns_def rows_setitem_length)

lemma nrows_reindex: "nrows (reindex new df) = nrows df"
  by (simp add: nrows_def reindex_def)

lemma length_concat_sum: "length (concat xss) = sum_list (map length xss)"
  by (induction xss) simp_all

lemma pd_concat_rows:
  assumes "pd_concat dfs = Inr df"
  shows "rows df = concat (map (\<lambda>d. rows (reindex (columns df) d)) dfs)"
    and "columns df = combined_columns dfs"
    and "dfs \<noteq> []"
  using assms by (auto simp: pd_concat_def Let_def split: if_splits)

lemma nrows_pd_concat:
  assumes "pd_concat dfs = Inr df"
  shows "nrows df = sum_list (map nrows dfs)"
proof -
  have "nrows df = length (concat (map (\<lambda>d. rows (reindex (columns df) d)) dfs))"
    using pd_concat_rows(1)[OF assms] by (simp add: nrows_def)
  also have "\<dots> = sum_list (map (\<lambda>d. nrows (reindex (columns df) d)) dfs)"
    by (simp add: length_concat_sum comp_def nrows_def)
  finally show ?thesis by (simp add: nrows_reindex)
qed

lemma set_combined_columns:
  assumes "d \<in> set dfs"
  shows "columns d = combined_columns dfs \<or> set (columns d) \<subseteq> set (combined_columns dfs)"
  using assms by (cases dfs) (auto simp: combined_columns_def union_columns_def list_all_iff)

lemma lookup_absent: "c \<notin> set cols \<Longrightarrow> lookup cols r c = NaN"
proof -
  assume "c \<notin> set cols"
  then have "c \<notin> fst ` set (zip cols r)" by (auto dest: set_zip_leftD)
  then have "map_of (zip cols r) c = None" by (simp add: map_of_eq_None_iff)
  then show ?thesis by (simp add: lookup_def)
qed

lemma lookup_realigned:
  assumes "set cols \<subseteq> set new"
  shows "lookup new (map (lookup cols r) new) = lookup cols r"
proof
  fix c
  show "lookup new (map (lookup cols r) new) c = lookup cols r c"
  proof (cases "c \<in> set new")
    case True
    then show ?thesis by (simp add: lookup_def map_of_zip_map)
  next
    case False
    with assms have "c \<notin> set cols" by auto
    with False show ?thesis by (simp add: lookup_absent)
  qed
qed

lemma columns_reindex: "columns (reindex new d) = new"
  by (simp add: reindex_def)

lemma records_reindex:
  assumes "columns d = new \<or> set (columns d) \<subseteq> set new"
  shows "records (reindex new d) = records d"
  using assms by (auto simp: records_def reindex_def lookup_realigned)

lemma records_pd_concat:
  assumes "pd_concat dfs = Inr df"
  shows "records df = concat (map records dfs)"
proof -
  have cols: "columns df = combined_columns dfs" by (rule pd_concat_rows(2)[OF assms])
  have "records df = concat (map (\<lambda>d. records (reindex (columns df) d)) dfs)"
    unfolding records_def pd_concat_rows(1)[OF assms]
    by (simp add: map_concat comp_def columns_reindex)
  also have "\<dots> = concat (map records dfs)"
  proof -
    have "map (\<lambda>d. records (reindex (columns df) d)) dfs = map records dfs"
      by (rule map_cong[OF refl]) (use set_combined_columns cols in \<open>auto intro: records_reindex\<close>)
    then show ?thesis by (rule arg_cong)
  qed
  finally show ?thesis .
qed

section \<open>Cells under a label\<close>

lemma cells_under_Nil [simp]: "cells_under [] r k = []" "cells_under cols [] k = []"
  by (simp_all add: cells_under_def)

lemma cells_under_Cons [simp]:
  "cells_under (c # cols) (x # r) k = (if c = k then x # cells_under cols r k else cells_under cols r k)"
  by (simp add: cells_under_def)

lemma length_cells_under:
  "length cols = length r \<Longrightarrow> length (cells_under cols r k) = count_list cols k"
  by (induction cols r rule: list_induct2) simp_all

lemma cells_under_overwrite:
  "length cols = length r \<Longrightarrow>
   cells_under cols (map (\<lambda>(c, x). if c = k then v else x) (zip cols r)) k' =
     (if k' = k then replicate (count_list cols k) v else cells_under cols r k')"
  by (induction cols r rule: list_induct2) auto

lemma cells_under_append:
  "length cols = length r \<Longrightarrow>
   cells_under (cols @ [k]) (r @ [v]) k' = cells_under cols r k' @ (if k' = k then [v] else [])"
  by (induction cols r rule: list_induct2) simp_all

lemma cells_under_map_label:
  assumes "\<And>c. c \<in> set cols \<Longrightarrow> (g c = k) = (c = k)"
  shows "cells_under (map g cols) r k = cells_under cols r k"
  using assms
proof (induction cols arbitrary: r)
  case Nil
  then show ?case by simp
next
  case (Cons c cols)
  then show ?case by (cases r) auto
qed

lemma cells_under_realigned:
  "cells_under new (map f new) k = replicate (count_list new k) (f k)"
  by (induction new) simp_all

lemma lookup_first:
  "cells_under cols r k = x # xs \<Longrightarrow> lookup cols r k = x"
proof (induction cols arbitrary: r)
  case Nil
  then show ?case by simp
next
  case (Cons c cols)
  then show ?case by (cases r) (auto simp: lookup_def split: if_splits)
qed

lemma wf_setitem: "wf_frame df \<Longrightarrow> wf_frame (setitem df k v)"
  by (auto simp: wf_frame_def setitem_def list_all_iff)

lemma cells_setitem:
  assumes "wf_frame df" and "r' \<in> set (rows (setitem df k v))"
  obtains r where "r \<in> set (rows df)"
    and "set (cells_under (columns (setitem df k v)) r' k) \<subseteq> {v}"
    and "\<And>k'. k' \<noteq> k \<Longrightarrow>
           cells_under (columns (setitem df k v)) r' k' = cells_under (columns df) r k'"
proof (cases "k \<in> set (columns df)")
  case True
  with assms(2) obtain r where r: "r \<in> set (rows df)"
    and r': "r' = map (\<lambda>(c, x). if c = k then v else x) (zip (columns df) r)"
    by (auto simp: setitem_def)
  from assms(1) r have len: "length (columns df) = length r"
    by (simp add: wf_frame_def list_all_iff)
  have "set (cells_under (columns (setitem df k v)) r' k) \<subseteq> {v}"
    using True by (auto simp: setitem_def r' cells_under_overwrite[OF len])
  moreover have "\<And>k'. k' \<noteq> k \<Longrightarrow>
      cells_under (columns (setitem df k v)) r' k' = cells_under (columns df) r k'"
    using True by (simp add: setitem_def r' cells_under_overwrite[OF len])
  ultimately show ?thesis using r that by blast
next
  case False
  with assms(2) obtain r where r: "r \<in> set (rows df)" and r': "r' = r @ [v]"
    by (auto simp: setitem_def)
  from assms(1) r have len: "length (columns df) = length r"
    by (simp add: wf_frame_def list_all_iff)
  from False have "count_list (columns df) k = 0" by simp
  then have none: "cells_under (columns df) r k = []"
    using length_cells_under[OF len, of k] by simp
  have "set (cells_under (columns (setitem df k v)) r' k) \<subseteq> {v}"
    using False none by (simp add: setitem_def r' cells_under_append[OF len])
  moreover have "\<And>k'. k' \<noteq> k \<Longrightarrow>
      cells_under (columns (setitem df k v)) r' k' = cells_under (columns df) r k'"
    using False by (simp add: setitem_def r' cells_under_append[OF len])
  ultimately show ?thesis using r that by blast
qed

lemma all_cells_setitem:
  assumes "wf_frame df"
  shows "all_cells (setitem df k v) k v"
  unfolding all_cells_def
proof
  fix r' assume "r' \<in> set (rows (setitem df k v))"
  from cells_setitem[OF assms this] show "set (cells_under (columns (setitem df k v)) r' k) \<subseteq> {v}"
    by metis
qed

lemma all_cells_setitem_other:
  assumes "wf_frame df" and "all_cells df k v" and "k \<noteq> k'"
  shows "all_cells (setitem df k' v') k v"
  unfolding all_cells_def
proof
  fix r' assume "r' \<in> set (rows (setitem df k' v'))"
  from cells_setitem[OF assms(1) this] obtain r where "r \<in> set (rows df)"
    and "cells_under (columns (setitem df k' v')) r' k = cells_under (columns df) r k"
    using assms(3) by metis
  with assms(2) show "set (cells_under (columns (setitem df k' v')) r' k) \<subseteq> {v}"
    by (auto simp: all_cells_def)
qed

lemma relabel_only_tag:
  assumes "count_list (map g cols) k = 1" and "k \<in> set cols" and "g k = k" and "c \<in> set cols"
  shows "(g c = k) = (c = k)"
proof -
  have "length (filter (\<lambda>c. g c = k) cols) = 1"
    using assms(1) by (simp add: count_list_eq_length_filter filter_map comp_def eq_commute)
  then obtain a where a: "filter (\<lambda>c. g c = k) cols = [a]"
    by (cases "filter (\<lambda>c. g c = k) cols") auto
  have "k \<in> set (filter (\<lambda>c. g c = k) cols)" using assms(2,3) by simp
  with a have "a = k" by simp
  show ?thesis
  proof
    assume "g c = k"
    with assms(4) have "c \<in> set (filter (\<lambda>c. g c = k) cols)" by simp
    with a \<open>a = k\<close> show "c = k" by simp
  next
    assume "c = k" with assms(3) show "g c = k" by simp
  qed
qed

section \<open>The tags of a normalized table and of a concatenation\<close>

lemma count_list_distinct: "distinct xs \<Longrightarrow> x \<in> set xs \<Longrightarrow> count_list xs x = 1"
  by (induction xs) auto

lemma single_cell: "length xs = 1 \<Longrightarrow> set xs \<subseteq> {v} \<Longrightarrow> xs = [v]"
  by (cases xs) auto

lemma key_in_setitem: "k \<in> set (columns (setitem df k v))"
  by (simp add: setitem_def)

lemma columns_setitem_mono: "set (columns df) \<subseteq> set (columns (setitem df k v))"
  by (auto simp: setitem_def)

lemma strip_Source: "strip ''Source'' = ''Source''"
  by (simp add: strip_def is_space_def)

lemma strip_Year: "strip ''Year'' = ''Year''"
  by (simp add: strip_def is_space_def)

lemma relabel_tags:
  "relabel commodity_names (Lbl ''Source'') = Lbl ''Source''"
  "relabel commodity_names (Lbl ''Year'') = Lbl ''Year''"
  "relabel industry_names (Lbl ''Source'') = Lbl ''Source''"
  "relabel industry_names (Lbl ''Year'') = Lbl ''Year''"
  by (simp_all add: relabel_def strip_Source strip_Year commodity_names_def industry_names_def)

lemma columns_normalize:
  "columns (normalize_table src names year df) =
     map (relabel names) (columns (setitem (setitem df (Lbl ''Source'') (Text src)) (Lbl ''Year'') (Whole year)))"
  by (simp add: normalize_table_def rename_def strip_columns_def relabel_def)

lemma rows_normalize:
  "rows (normalize_table src names year df) =
     rows (setitem (setitem df (Lbl ''Source'') (Text src)) (Lbl ''Year'') (Whole year))"
  by (simp add: normalize_table_def rename_def strip_columns_def)

lemma wf_normalize: "wf_frame df \<Longrightarrow> wf_frame (normalize_table src names year df)"
  using wf_setitem[OF wf_setitem, of df "Lbl ''Source''" "Text src" "Lbl ''Year''" "Whole year"]
  by (simp add: wf_frame_def columns_normalize rows_normalize)

lemma cells_normalize:
  assumes "plain_tags src names year df"
    and "relabel names (Lbl ''Source'') = Lbl ''Source''"
    and "relabel names (Lbl ''Year'') = Lbl ''Year''"
    and "r \<in> set (rows (normalize_table src names year df))"
  shows "cells_under (columns (normalize_table src names year df)) r (Lbl ''Source'') = [Text src]"
    and "cells_under (columns (normalize_table src names year df)) r (Lbl ''Year'') = [Whole year]"
proof -
  let ?d1 = "setitem df (Lbl ''Source'') (Text src)"
  let ?d2 = "setitem ?d1 (Lbl ''Year'') (Whole year)"
  let ?nf = "normalize_table src names year df"
  from assms(1) have wf: "wf_frame df"
    and oneS: "count_list (map (relabel names) (columns ?d2)) (Lbl ''Source'') = 1"
    and oneY: "count_list (map (relabel names) (columns ?d2)) (Lbl ''Year'') = 1"
    by (simp_all add: plain_tags_def columns_normalize)
  have wf1: "wf_frame ?d1" and wf2: "wf_frame ?d2"
    using wf by (simp_all add: wf_setitem)
  have inS: "Lbl ''Source'' \<in> set (columns ?d2)"
    using key_in_setitem[of "Lbl ''Source''" df] columns_setitem_mono[of ?d1] by blast
  have inY: "Lbl ''Year'' \<in> set (columns ?d2)"
    by (rule key_in_setitem)
  have allS: "all_cells ?d2 (Lbl ''Source'') (Text src)"
    by (rule all_cells_setitem_other[OF wf1 all_cells_setitem[OF wf]]) simp
  have allY: "all_cells ?d2 (Lbl ''Year'') (Whole year)"
    by (rule all_cells_setitem[OF wf1])
  from assms(4) have r: "r \<in> set (rows ?d2)" by (simp add: rows_normalize)
  with wf2 have len: "length (map (relabel names) (columns ?d2)) = length r"
    by (simp add: wf_frame_def list_all_iff)
  have eqS: "cells_under (columns ?nf) r (Lbl ''Source'') = cells_under (columns ?d2) r (Lbl ''Source'')"
    unfolding columns_normalize
    by (rule cells_under_map_label) (rule relabel_only_tag[OF oneS inS assms(2)])
  have eqY: "cells_under (columns ?nf) r (Lbl ''Year'') = cells_under (columns ?d2) r (Lbl ''Year'')"
    unfolding columns_normalize
    by (rule cells_under_map_label) (rule relabel_only_tag[OF oneY inY assms(3)])
  have "length (cells_under (columns ?nf) r (Lbl ''Source'')) = 1"
    unfolding columns_normalize using length_cells_under[OF len] oneS by simp
  moreover have "set (cells_under (columns ?nf) r (Lbl ''Source'')) \<subseteq> {Text src}"
    using allS r by (simp add: eqS all_cells_def)
  ultimately show "cells_under (columns ?nf) r (Lbl ''Source'') = [Text src]"
    by (rule single_cell)
  have "length (cells_under (columns ?nf) r (Lbl ''Year'')) = 1"
    unfolding columns_normalize using length_cells_under[OF len] oneY by simp
  moreover have "set (cells_under (columns ?nf) r (Lbl ''Year'')) \<subseteq> {Whole year}"
    using allY r by (simp add: eqY all_cells_def)
  ultimately show "cells_under (columns ?nf) r (Lbl ''Year'') = [Whole year]"
    by (rule single_cell)
qed

lemma tags_normalize:
  assumes "plain_tags src names year df"
    and "relabel names (Lbl ''Source'') = Lbl ''Source''"
    and "relabel names (Lbl ''Year'') = Lbl ''Year''"
  shows "tags (normalize_table src names year df) = replicate (nrows df) ([Text src], [Whole year])"
proof -
  have "tags (normalize_table src names year df)
        = map (\<lambda>r. ([Text src], [Whole year])) (rows (normalize_table src names year df))"
    unfolding tags_def
    by (rule map_cong[OF refl]) (simp add: cells_normalize[OF assms])
  then show ?thesis
    using nrows_normalize[of src names year df] by (simp add: map_replicate_const nrows_def)
qed

lemma tagged_normalize:
  assumes "plain_tags src names year df"
    and "relabel names (Lbl ''Source'') = Lbl ''Source''"
    and "relabel names (Lbl ''Year'') = Lbl ''Year''"
  shows "tagged (normalize_table src names year df)"
  using assms(1) cells_normalize[OF assms] by (simp add: tagged_def plain_tags_def)

lemma tags_reindex:
  assumes "tagged d"
    and "columns d = new \<or> (count_list new (Lbl ''Source'') = 1 \<and> count_list new (Lbl ''Year'') = 1)"
  shows "tags (reindex new d) = tags d"
proof (cases "columns d = new")
  case True
  then show ?thesis by (simp add: reindex_def)
next
  case False
  with assms(2) have one: "count_list new (Lbl ''Source'') = 1" "count_list new (Lbl ''Year'') = 1"
    by simp_all
  have cell: "cells_under new (map (lookup (columns d) r) new) k = cells_under (columns d) r k"
    if "count_list new k = 1" and "length (cells_under (columns d) r k) = 1" for r k
  proof -
    from that(2) obtain x where x: "cells_under (columns d) r k = [x]"
      by (cases "cells_under (columns d) r k") auto
    then have "lookup (columns d) r k = x" by (rule lookup_first)
    with that(1) x show ?thesis by (simp add: cells_under_realigned)
  qed
  have "map (\<lambda>r. (cells_under new r (Lbl ''Source''), cells_under new r (Lbl ''Year'')))
            (map (\<lambda>r. map (lookup (columns d) r) new) (rows d))
        = tags d"
    unfolding tags_def map_map comp_def
    by (rule map_cong[OF refl]) (use assms(1) one in \<open>simp add: cell tagged_def\<close>)
  with False show ?thesis by (simp add: tags_def reindex_def)
qed

lemma count_combined_columns:
  assumes "dfs \<noteq> []" and "\<forall>d\<in>set dfs. count_list (columns d) k = 1"
  shows "count_list (combined_columns dfs) k = 1"
proof (cases "list_all (\<lambda>df. columns df = columns (hd dfs)) (tl dfs)")
  case True
  with assms show ?thesis by (simp add: combined_columns_def)
next
  case False
  from assms have "k \<in> set (columns (hd dfs))"
    by (metis count_list_0_iff hd_in_set zero_neq_one)
  with assms(1) have "k \<in> set (union_columns (map columns dfs))"
    by (cases dfs) (auto simp: union_columns_def)
  moreover have "distinct (union_columns (map columns dfs))"
    by (simp add: union_columns_def)
  ultimately show ?thesis using False
    by (simp add: combined_columns_def count_list_distinct)
qed

lemma tags_pd_concat:
  assumes "pd_concat dfs = Inr df" and "\<forall>d\<in>set dfs. tagged d"
  shows "tags df = concat (map tags dfs)" and "tagged df"
proof -
  have cols: "columns df = combined_columns dfs" and ne: "dfs \<noteq> []"
    using pd_concat_rows[OF assms(1)] by simp_all
  have oneS: "count_list (columns df) (Lbl ''Source'') = 1"
    unfolding cols by (rule count_combined_columns[OF ne]) (use assms(2) in \<open>simp add: tagged_def\<close>)
  have oneY: "count_list (columns df) (Lbl ''Year'') = 1"
    unfolding cols by (rule count_combined_columns[OF ne]) (use assms(2) in \<open>simp add: tagged_def\<close>)
  have "tags df = concat (map (\<lambda>d. tags (reindex (columns df) d)) dfs)"
    unfolding tags_def pd_concat_rows(1)[OF assms(1)]
    by (simp add: map_concat comp_def columns_reindex)
  also have "\<dots> = concat (map tags dfs)"
  proof -
    have "map (\<lambda>d. tags (reindex (columns df) d)) dfs = map tags dfs"
      by (rule map_cong[OF refl]) (use assms(2) oneS oneY in \<open>simp add: tags_reindex\<close>)
    then show ?thesis by (rule arg_cong)
  qed
  finally show t: "tags df = concat (map tags dfs)" .
  have "\<forall>p\<in>set (tags df). length (fst p) = 1 \<and> length (snd p) = 1"
    unfolding t using assms(2) by (auto simp: tagged_def tags_def)
  then show "tagged df"
    using oneS oneY by (simp add: tagged_def tags_def)
qed

section \<open>What a year contributes\<close>

lemma appended_cases:
  obtains (skipped) "appended rd year = []" and "\<not> ingested rd year"
  | (ok) df_com df_ind df where
      "rd (str_int year @ ''_Detail_Commodity'') = Inr df_com"
      "rd (str_int year @ ''_Detail_Industry'') = Inr df_ind"
      "pd_concat [normalize_table ''Commodity'' commodity_names year df_com,
                  normalize_table ''Industry'' industry_names year df_ind] = Inr df"
      "appended rd year = [df]" and "ingested rd year"
  by (cases "try_body rd year")
     (auto simp: appended_def ingested_def try_body_normalize split: sum.splits)

lemma nrows_appended:
  "sum_list (map nrows (appended rd year)) = (if ingested rd year then year_rows rd year else 0)"
proof (cases rd year rule: appended_cases)
  case skipped
  then show ?thesis by simp
next
  case (ok df_com df_ind df)
  then show ?thesis
    using nrows_pd_concat[OF ok(3)] by (simp add: year_rows_def nrows_normalize)
qed

lemma records_appended:
  "concat (map records (appended rd year)) = (if ingested rd year then year_records rd year else [])"
proof (cases rd year rule: appended_cases)
  case skipped
  then show ?thesis by simp
next
  case (ok df_com df_ind df)
  then show ?thesis
    using records_pd_concat[OF ok(3)] by (simp add: year_records_def)
qed

lemma tags_appended:
  assumes "ingested rd year \<Longrightarrow> plain_year rd year"
  shows "concat (map tags (appended rd year)) = (if ingested rd year then year_tags rd year else [])"
    and "\<forall>d\<in>set (appended rd year). tagged d"
proof -
  have "concat (map tags (appended rd year)) = (if ingested rd year then year_tags rd year else [])
     \<and> (\<forall>d\<in>set (appended rd year). tagged d)"
  proof (cases rd year rule: appended_cases)
    case skipped
    then show ?thesis by simp
  next
    case (ok df_com df_ind df)
    with assms have pc: "plain_tags ''Commodity'' commodity_names year df_com"
      and pi: "plain_tags ''Industry'' industry_names year df_ind"
      by (simp_all add: plain_year_def)
    let ?c = "normalize_table ''Commodity'' commodity_names year df_com"
    let ?i = "normalize_table ''Industry'' industry_names year df_ind"
    have tg: "\<forall>d\<in>set [?c, ?i]. tagged d"
      using tagged_normalize[OF pc relabel_tags(1,2)] tagged_normalize[OF pi relabel_tags(3,4)]
      by simp
    have "tags df = tags ?c @ tags ?i" and "tagged df"
      using tags_pd_concat[OF ok(3) tg] by simp_all
    then show ?thesis
      using ok tags_normalize[OF pc relabel_tags(1,2)] tags_normalize[OF pi relabel_tags(3,4)]
      by (simp add: year_tags_def)
  qed
  then show "concat (map tags (appended rd year)) = (if ingested rd year then year_tags rd year else [])"
    and "\<forall>d\<in>set (appended rd year). tagged d" by simp_all
qed

lemma concat_over_years:
  assumes "\<And>y. y \<in> set years \<Longrightarrow> concat (map F (appended rd y)) = (if ingested rd y then G y else [])"
  shows "concat (map F (concat (map (appended rd) years))) = concat (map G (filter (ingested rd) years))"
  using assms by (induction years) simp_all

lemma sum_over_years:
  "sum_list (map nrows (concat (map (appended rd) years))) = sum_list (map (year_rows rd) (filter (ingested rd) years))"
  by (induction years) (simp_all add: nrows_appended)

lemma tags_combined:
  assumes "combined rd years = Inr df"
    and "list_all (plain_year rd) (filter (ingested rd) years)"
  shows "tags df = concat (map (year_tags rd) (filter (ingested rd) years))"
proof -
  have plain: "ingested rd y \<Longrightarrow> plain_year rd y" if "y \<in> set years" for y
    using assms(2) that by (simp add: list_all_iff)
  have "\<forall>d\<in>set (concat (map (appended rd) years)). tagged d"
    using tags_appended(2)[OF plain] by auto
  then have "tags df = concat (map tags (concat (map (appended rd) years)))"
    using tags_pd_concat(1)[OF assms(1)[unfolded combined_def]] by (simp add: all_data_ingest)
  also have "\<dots> = concat (map (year_tags rd) (filter (ingested rd) years))"
    by (rule concat_over_years) (rule tags_appended(1)[OF plain])
  finally show ?thesis .
qed

section \<open>Labels without white space around them\<close>

lemma last_dropWhile:
  "dropWhile P xs \<noteq> [] \<Longrightarrow> last (dropWhile P xs) = last xs"
  by (induction xs) (auto split: if_splits)

lemma no_outer_space_strip: "no_outer_space (Lbl (strip s))"
proof (cases "strip s")
  case Nil
  then show ?thesis by simp
next
  case (Cons c cs)
  let ?t = "dropWhile is_space s"
  let ?u = "dropWhile is_space (rev ?t)"
  from Cons have u: "?u \<noteq> []" by (auto simp: strip_def)
  have t: "?t \<noteq> []"
  proof
    assume empty: "?t = []"
    have "?u = []" unfolding empty by simp
    with u show False by (rule notE)
  qed
  have "last (strip s) = hd ?u" by (simp add: strip_def last_rev)
  moreover have "\<not> is_space (hd ?u)" using u by (rule hd_dropWhile)
  ultimately have l: "\<not> is_space (last (strip s))" by simp
  have "hd (strip s) = last ?u" by (simp add: strip_def hd_rev)
  moreover have "last ?u = hd ?t" using last_dropWhile[OF u] by (simp add: last_rev)
  moreover have "\<not> is_space (hd ?t)" using t by (rule hd_dropWhile)
  ultimately have h: "\<not> is_space (hd (strip s))" by simp
  from h l show ?thesis unfolding Cons by simp
qed

lemma no_outer_space_strip_label: "no_outer_space (strip_label c)"
  by (cases c) (simp_all add: no_outer_space_strip del: no_outer_space.simps(1))

lemma rename_commodity:
  "rename_label commodity_names c =
     (if c = Lbl ''Commodity Code'' then Lbl ''Code''
      else if c = Lbl ''Commodity Name'' then Lbl ''Name'' else c)"
  by (cases c) (simp_all add: commodity_names_def)

lemma rename_industry:
  "rename_label industry_names c =
     (if c = Lbl ''Industry Code'' then Lbl ''Code''
      else if c = Lbl ''Industry Name'' then Lbl ''Name'' else c)"
  by (cases c) (simp_all add: industry_names_def)

lemma no_outer_space_Code: "no_outer_space (Lbl ''Code'')"
  by (simp add: is_space_def)

lemma no_outer_space_Name: "no_outer_space (Lbl ''Name'')"
  by (simp add: is_space_def)

lemma no_outer_space_rename:
  assumes "no_outer_space c"
  shows "no_outer_space (rename_label commodity_names c)"
    and "no_outer_space (rename_label industry_names c)"
  using assms no_outer_space_Code no_outer_space_Name
  by (simp_all add: rename_commodity rename_industry del: no_outer_space.simps(1))

lemma columns_normalize_before:
  "columns (normalize_table src names year df) = map (rename_label names) (columns (before_rename src year df))"
  by (simp add: normalize_table_def before_rename_def rename_def)

lemma no_outer_space_before: "list_all no_outer_space (columns (before_rename src year df))"
  by (simp add: before_rename_def strip_columns_def list_all_iff no_outer_space_strip_label)

lemma no_outer_space_normalize:
  "list_all no_outer_space (columns (normalize_table src commodity_names year df))"
  "list_all no_outer_space (columns (normalize_table src industry_names year df))"
  using no_outer_space_before[of src year df]
  by (simp_all add: columns_normalize_before list_all_iff no_outer_space_rename)

lemma combined_columns_subset:
  assumes "dfs \<noteq> []"
  shows "set (combined_columns dfs) \<subseteq> (\<Union>d\<in>set dfs. set (columns d))"
  using assms by (cases dfs) (auto simp: combined_columns_def union_columns_def)

lemma no_outer_space_pd_concat:
  assumes "pd_concat dfs = Inr df"
    and "\<forall>d\<in>set dfs. list_all no_outer_space (columns d)"
  shows "list_all no_outer_space (columns df)"
  using combined_columns_subset[OF pd_concat_rows(3)[OF assms(1)]] assms(2)
  unfolding pd_concat_rows(2)[OF assms(1)] list_all_iff by blast

lemma no_outer_space_appended:
  "\<forall>d\<in>set (appended rd year). list_all no_outer_space (columns d)"
proof (cases rd year rule: appended_cases)
  case skipped
  then show ?thesis by simp
next
  case (ok df_com df_ind df)
  have "list_all no_outer_space (columns df)"
    by (rule no_outer_space_pd_concat[OF ok(3)]) (simp add: no_outer_space_normalize)
  with ok(4) show ?thesis by simp
qed

lemma set_columns_setitem: "set (columns (setitem df k v)) = insert k (set (columns df))"
  by (auto simp: setitem_def)

lemma set_columns_before:
  "set (columns (before_rename src year df)) =
     insert (Lbl ''Source'') (insert (Lbl ''Year'') (strip_label ` set (columns df)))"
  by (auto simp: before_rename_def strip_columns_def set_columns_setitem strip_Source strip_Year)

section \<open>Sheets with the column set of the specification\<close>

lemma renaming_bijective:
  assumes "strip_label ` set (columns df_com) = {Lbl ''Commodity Code'', Lbl ''Commodity Name''} \<union> R"
    and "strip_label ` set (columns df_ind) = {Lbl ''Industry Code'', Lbl ''Industry Name''} \<union> R"
    and "R \<inter> {Lbl ''Commodity Code'', Lbl ''Commodity Name'', Lbl ''Industry Code'',
                Lbl ''Industry Name'', Lbl ''Code'', Lbl ''Name''} = {}"
  shows "map_of commodity_names = [''Commodity Code'' \<mapsto> ''Code'', ''Commodity Name'' \<mapsto> ''Name'']
       \<and> map_of industry_names = [''Industry Code'' \<mapsto> ''Code'', ''Industry Name'' \<mapsto> ''Name'']
       \<and> bij_betw (rename_label commodity_names)
            (set (columns (before_rename ''Commodity'' year df_com)))
            (set (columns (normalize_table ''Commodity'' commodity_names year df_com)))
       \<and> bij_betw (rename_label industry_names)
            (set (columns (before_rename ''Industry'' year df_ind)))
            (set (columns (normalize_table ''Industry'' industry_names year df_ind)))
       \<and> set (columns (normalize_table ''Commodity'' commodity_names year df_com))
           = {Lbl ''Code'', Lbl ''Name'', Lbl ''Source'', Lbl ''Year''} \<union> R
       \<and> set (columns (normalize_table ''Industry'' industry_names year df_ind))
           = {Lbl ''Code'', Lbl ''Name'', Lbl ''Source'', Lbl ''Year''} \<union> R"
proof -
  let ?bc = "set (columns (before_rename ''Commodity'' year df_com))"
  let ?bi = "set (columns (before_rename ''Industry'' year df_ind))"
  have bc: "?bc = {Lbl ''Commodity Code'', Lbl ''Commodity Name'', Lbl ''Source'', Lbl ''Year''} \<union> R"
    unfolding set_columns_before assms(1) by auto
  have bi: "?bi = {Lbl ''Industry Code'', Lbl ''Industry Name'', Lbl ''Source'', Lbl ''Year''} \<union> R"
    unfolding set_columns_before assms(2) by auto
  have notR: "Lbl ''Commodity Code'' \<notin> R" "Lbl ''Commodity Name'' \<notin> R"
    "Lbl ''Industry Code'' \<notin> R" "Lbl ''Industry Name'' \<notin> R" "Lbl ''Code'' \<notin> R" "Lbl ''Name'' \<notin> R"
    using assms(3) by auto
  have injc: "inj_on (rename_label commodity_names) ?bc"
    unfolding bc inj_on_def using notR by (auto simp: rename_commodity split: if_splits)
  have inji: "inj_on (rename_label industry_names) ?bi"
    unfolding bi inj_on_def using notR by (auto simp: rename_industry split: if_splits)
  have imc: "rename_label commodity_names ` ?bc = {Lbl ''Code'', Lbl ''Name'', Lbl ''Source'', Lbl ''Year''} \<union> R"
    unfolding bc using notR by (auto simp: rename_commodity image_iff split: if_splits)
  have imi: "rename_label industry_names ` ?bi = {Lbl ''Code'', Lbl ''Name'', Lbl ''Source'', Lbl ''Year''} \<union> R"
    unfolding bi using notR by (auto simp: rename_industry image_iff split: if_splits)
  have nc: "set (columns (normalize_table ''Commodity'' commodity_names year df_com)) = rename_label commodity_names ` ?bc"
    by (simp add: columns_normalize_before)
  have ni: "set (columns (normalize_table ''Industry'' industry_names year df_ind)) = rename_label industry_names ` ?bi"
    by (simp add: columns_normalize_before)
  have m1: "map_of commodity_names = [''Commodity Code'' \<mapsto> ''Code'', ''Commodity Name'' \<mapsto> ''Name'']"
    by (auto simp: commodity_names_def)
  have m2: "map_of industry_names = [''Industry Code'' \<mapsto> ''Code'', ''Industry Name'' \<mapsto> ''Name'']"
    by (auto simp: industry_names_def)
  from injc nc have b1: "bij_betw (rename_label commodity_names) ?bc
       (set (columns (normalize_table ''Commodity'' commodity_names year df_com)))"
    by (simp add: bij_betw_def)
  from inji ni have b2: "bij_betw (rename_label industry_names) ?bi
       (set (columns (normalize_table ''Industry'' industry_names year df_ind)))"
    by (simp add: bij_betw_def)
  show ?thesis using m1 m2 b1 b2 nc ni imc imi by simp
qed

lemma rest_not_reserved:
  assumes "shared_ok rest" and "c \<in> set rest"
  shows "c \<noteq> Lbl ''Commodity Code''" "c \<noteq> Lbl ''Commodity Name''" "c \<noteq> Lbl ''Industry Code''"
    "c \<noteq> Lbl ''Industry Name''" "c \<noteq> Lbl ''Code''" "c \<noteq> Lbl ''Name''" "c \<noteq> Lbl ''Source''"
    "c \<noteq> Lbl ''Year''"
  using assms by (auto simp: shared_ok_def reserved_labels_def list_all_iff)

lemma tag_absent:
  assumes "map strip_label cols = [Lbl k1, Lbl k2] @ rest" and "shared_ok rest"
    and "strip_label t = t" and "t \<noteq> Lbl k1" and "t \<noteq> Lbl k2" and "t \<in> set reserved_labels"
  shows "t \<notin> set cols"
proof
  assume "t \<in> set cols"
  then have "strip_label t \<in> set (map strip_label cols)" by simp
  then have "t \<in> set ([Lbl k1, Lbl k2] @ rest)" using assms(1,3) by simp
  with assms(4,5) have "t \<in> set rest" by simp
  with assms(2,6) show False by (auto simp: shared_ok_def list_all_iff)
qed

lemma columns_tagged:
  assumes "map strip_label (columns df) = [Lbl k1, Lbl k2] @ rest" and "shared_ok rest"
    and "Lbl ''Source'' \<noteq> Lbl k1" "Lbl ''Source'' \<noteq> Lbl k2"
    and "Lbl ''Year'' \<noteq> Lbl k1" "Lbl ''Year'' \<noteq> Lbl k2"
  shows "columns (before_rename src year df) = [Lbl k1, Lbl k2] @ rest @ [Lbl ''Source'', Lbl ''Year'']"
proof -
  have s: "Lbl ''Source'' \<notin> set (columns df)"
    by (rule tag_absent[OF assms(1,2)]) (use assms in \<open>simp_all add: strip_Source reserved_labels_def\<close>)
  have y: "Lbl ''Year'' \<notin> set (columns df)"
    by (rule tag_absent[OF assms(1,2)]) (use assms in \<open>simp_all add: strip_Year reserved_labels_def\<close>)
  have "columns (setitem (setitem df (Lbl ''Source'') (Text src)) (Lbl ''Year'') (Whole year))
          = columns df @ [Lbl ''Source'', Lbl ''Year'']"
    using s y by (simp add: setitem_def)
  then show ?thesis
    using assms(1) by (simp add: before_rename_def strip_columns_def strip_Source strip_Year)
qed

lemma rename_rest:
  assumes "shared_ok rest"
  shows "map (rename_label commodity_names) rest = rest"
    and "map (rename_label industry_names) rest = rest"
proof -
  show "map (rename_label commodity_names) rest = rest"
    by (rule map_idI) (use rest_not_reserved[OF assms] in \<open>simp add: rename_commodity\<close>)
  show "map (rename_label industry_names) rest = rest"
    by (rule map_idI) (use rest_not_reserved[OF assms] in \<open>simp add: rename_industry\<close>)
qed

lemma columns_detail_commodity:
  assumes "detail_sheet ''Commodity'' rest df" and "shared_ok rest"
  shows "columns (before_rename ''Commodity'' year df) =
           [Lbl ''Commodity Code'', Lbl ''Commodity Name''] @ rest @ [Lbl ''Source'', Lbl ''Year'']"
    and "columns (normalize_table ''Commodity'' commodity_names year df) = unified_columns rest"
proof -
  from assms(1) have m: "map strip_label (columns df) = [Lbl ''Commodity Code'', Lbl ''Commodity Name''] @ rest"
    by (simp add: detail_sheet_def)
  show b: "columns (before_rename ''Commodity'' year df) =
           [Lbl ''Commodity Code'', Lbl ''Commodity Name''] @ rest @ [Lbl ''Source'', Lbl ''Year'']"
    by (rule columns_tagged[OF m assms(2)]) simp_all
  show "columns (normalize_table ''Commodity'' commodity_names year df) = unified_columns rest"
  proof -
    have "rename_label commodity_names (Lbl ''Commodity Code'') = Lbl ''Code''"
      "rename_label commodity_names (Lbl ''Commodity Name'') = Lbl ''Name''"
      "rename_label commodity_names (Lbl ''Source'') = Lbl ''Source''"
      "rename_label commodity_names (Lbl ''Year'') = Lbl ''Year''"
      by (simp_all add: commodity_names_def)
    then show ?thesis
      by (simp add: columns_normalize_before b rename_rest[OF assms(2)] unified_columns_def
          del: rename_label.simps)
  qed
qed

lemma columns_detail_industry:
  assumes "detail_sheet ''Industry'' rest df" and "shared_ok rest"
  shows "columns (before_rename ''Industry'' year df) =
           [Lbl ''Industry Code'', Lbl ''Industry Name''] @ rest @ [Lbl ''Source'', Lbl ''Year'']"
    and "columns (normalize_table ''Industry'' industry_names year df) = unified_columns rest"
proof -
  from assms(1) have m: "map strip_label (columns df) = [Lbl ''Industry Code'', Lbl ''Industry Name''] @ rest"
    by (simp add: detail_sheet_def)
  show b: "columns (before_rename ''Industry'' year df) =
           [Lbl ''Industry Code'', Lbl ''Industry Name''] @ rest @ [Lbl ''Source'', Lbl ''Year'']"
    by (rule columns_tagged[OF m assms(2)]) simp_all
  show "columns (normalize_table ''Industry'' industry_names year df) = unified_columns rest"
  proof -
    have "rename_label industry_names (Lbl ''Industry Code'') = Lbl ''Code''"
      "rename_label industry_names (Lbl ''Industry Name'') = Lbl ''Name''"
      "rename_label industry_names (Lbl ''Source'') = Lbl ''Source''"
      "rename_label industry_names (Lbl ''Year'') = Lbl ''Year''"
      by (simp_all add: industry_names_def)
    then show ?thesis
      by (simp add: columns_normalize_before b rename_rest[OF assms(2)] unified_columns_def
          del: rename_label.simps)
  qed
qed

lemma unified_columns_tags:
  assumes "shared_ok rest"
  shows "count_list (unified_columns rest) (Lbl ''Source'') = 1"
    and "count_list (unified_columns rest) (Lbl ''Year'') = 1"
    and "distinct (unified_columns rest)"
proof -
  have no: "Lbl ''Source'' \<notin> set rest" "Lbl ''Year'' \<notin> set rest" "Lbl ''Code'' \<notin> set rest"
    "Lbl ''Name'' \<notin> set rest"
    using assms by (auto simp: shared_ok_def reserved_labels_def list_all_iff)
  show "count_list (unified_columns rest) (Lbl ''Source'') = 1"
    using no by (simp add: unified_columns_def)
  show "count_list (unified_columns rest) (Lbl ''Year'') = 1"
    using no by (simp add: unified_columns_def)
  show "distinct (unified_columns rest)"
    using no assms by (simp add: unified_columns_def shared_ok_def)
qed

lemma plain_tags_detail:
  assumes "shared_ok rest"
  shows "detail_sheet ''Commodity'' rest df \<Longrightarrow> plain_tags ''Commodity'' commodity_names year df"
    and "detail_sheet ''Industry'' rest df \<Longrightarrow> plain_tags ''Industry'' industry_names year df"
  using unified_columns_tags[OF assms]
  by (simp_all add: plain_tags_def columns_detail_commodity[OF _ assms] columns_detail_industry[OF _ assms]
      detail_sheet_def)

lemma pd_concat_same_columns:
  assumes "dfs \<noteq> []" and "\<forall>d\<in>set dfs. columns d = cols"
  shows "pd_concat dfs = Inr \<lparr>columns = cols, rows = concat (map rows dfs)\<rparr>"
proof -
  have hd: "columns (hd dfs) = cols" using assms by simp
  have cc: "combined_columns dfs = cols"
    using assms hd by (cases dfs) (auto simp: combined_columns_def list_all_iff)
  have "map (\<lambda>df. rows (reindex cols df)) dfs = map rows dfs"
    by (rule map_cong[OF refl]) (use assms(2) in \<open>simp add: reindex_def\<close>)
  then have "concat (map (\<lambda>df. rows (reindex cols df)) dfs) = concat (map rows dfs)"
    by (rule arg_cong)
  moreover have "\<not> list_ex (\<lambda>df. columns df \<noteq> cols \<and> \<not> distinct (columns df)) dfs"
    using assms(2) by (simp add: list_ex_iff)
  ultimately show ?thesis
    using assms(1) by (simp add: pd_concat_def cc Let_def)
qed

lemma try_body_detail:
  assumes "rd (str_int year @ ''_Detail_Commodity'') = Inr df_com"
    and "rd (str_int year @ ''_Detail_Industry'') = Inr df_ind"
    and "detail_sheet ''Commodity'' rest df_com" and "detail_sheet ''Industry'' rest df_ind"
    and "shared_ok rest"
  shows "try_body rd year =
           Inr \<lparr>columns = unified_columns rest,
                rows = rows (normalize_table ''Commodity'' commodity_names year df_com)
                     @ rows (normalize_table ''Industry'' industry_names year df_ind)\<rparr>"
proof -
  let ?c = "normalize_table ''Commodity'' commodity_names year df_com"
  let ?i = "normalize_table ''Industry'' industry_names year df_ind"
  have "pd_concat [?c, ?i] = Inr \<lparr>columns = unified_columns rest, rows = concat (map rows [?c, ?i])\<rparr>"
    by (rule pd_concat_same_columns)
       (simp_all add: columns_detail_commodity(2)[OF assms(3,5)] columns_detail_industry(2)[OF assms(4,5)])
  then show ?thesis using assms(1,2) by (simp add: try_body_normalize)
qed

lemma on_schema_year:
  assumes "on_schema rest rd year" and "shared_ok rest"
  shows "plain_year rd year"
    and "\<forall>d\<in>set (appended rd year). columns d = unified_columns rest"
    and "ingested rd year =
           (\<not> isl (rd (str_int year @ ''_Detail_Commodity'')) \<and> \<not> isl (rd (str_int year @ ''_Detail_Industry'')))"
proof -
  show "plain_year rd year"
    using assms plain_tags_detail[OF assms(2)]
    by (auto simp: on_schema_def plain_year_def split: sum.splits)
  have "(\<forall>d\<in>set (appended rd year). columns d = unified_columns rest)
      \<and> ingested rd year =
           (\<not> isl (rd (str_int year @ ''_Detail_Commodity'')) \<and> \<not> isl (rd (str_int year @ ''_Detail_Industry'')))"
  proof (cases "rd (str_int year @ ''_Detail_Commodity'')")
    case (Inl e)
    then show ?thesis by (simp add: appended_def ingested_def try_body_def)
  next
    case com: (Inr df_com)
    show ?thesis
    proof (cases "rd (str_int year @ ''_Detail_Industry'')")
      case (Inl e)
      with com show ?thesis by (simp add: appended_def ingested_def try_body_def)
    next
      case ind: (Inr df_ind)
      from assms(1) com ind have "detail_sheet ''Commodity'' rest df_com" "detail_sheet ''Industry'' rest df_ind"
        by (simp_all add: on_schema_def)
      from try_body_detail[OF com ind this assms(2)] com ind show ?thesis
        by (simp add: appended_def ingested_def)
    qed
  qed
  then show "\<forall>d\<in>set (appended rd year). columns d = unified_columns rest"
    and "ingested rd year =
           (\<not> isl (rd (str_int year @ ''_Detail_Commodity'')) \<and> \<not> isl (rd (str_int year @ ''_Detail_Industry'')))"
    by simp_all
qed

lemma combined_on_schema:
  assumes "list_all (on_schema rest rd) years" and "shared_ok rest"
    and "filter (ingested rd) years \<noteq> []"
  shows "\<exists>df. combined rd years = Inr df \<and> columns df = unified_columns rest"
proof -
  have cols: "\<forall>d\<in>set (all_data (ingest rd years)). columns d = unified_columns rest"
    using assms(1) on_schema_year(2)[OF _ assms(2)] by (auto simp: all_data_ingest list_all_iff)
  have "length (all_data (ingest rd years)) = length (filter (ingested rd) years)"
    by (simp add: all_data_ingest length_concat_appended)
  with assms(3) have ne: "all_data (ingest rd years) \<noteq> []" by auto
  from pd_concat_same_columns[OF ne cols] show ?thesis by (simp add: combined_def)
qed

lemma normalize_table_rename:
  "normalize_table src names year df = rename (before_rename src year df) names"
  by (simp add: normalize_table_def before_rename_def)

lemma carried_refl: "list_all2 (carried cs) xs xs"
  by (simp add: list_all2_same carried_def list_all_iff)

section \<open>The store and the values\<close>

lemma in_place_chain:
  assumes "objects t = os @ [x, y]"
  shows "in_place (Suc (length os)) g4 (in_place (length os) f4
          (in_place (Suc (length os)) g3 (in_place (length os) f3
            (in_place (Suc (length os)) g2 (in_place (length os) f2
              (in_place (Suc (length os)) g1 (in_place (length os) f1 t)))))))
         = t\<lparr>objects := os @ [f4 (f3 (f2 (f1 x))), g4 (g3 (g2 (g1 y)))]\<rparr>"
  by (simp add: in_place_def assms nth_append list_update_append)

lemma try_body_store_eq:
  "try_body_store rd year s =
     (case rd (str_int year @ ''_Detail_Commodity'') of
        Inl e \<Rightarrow> (Some e, s)
      | Inr t_com \<Rightarrow>
     (case rd (str_int year @ ''_Detail_Industry'') of
        Inl e \<Rightarrow> (Some e, s\<lparr>objects := objects s @ [t_com], com_ref := Some (length (objects s))\<rparr>)
      | Inr t_ind \<Rightarrow>
     (case pd_concat [normalize_table ''Commodity'' commodity_names year t_com,
                      normalize_table ''Industry'' industry_names year t_ind] of
        Inl e \<Rightarrow>
          (Some e, s\<lparr>objects := objects s @ [normalize_table ''Commodity'' commodity_names year t_com,
                                              normalize_table ''Industry'' industry_names year t_ind],
                     com_ref := Some (length (objects s)),
                     ind_ref := Some (Suc (length (objects s)))\<rparr>)
      | Inr t \<Rightarrow>
          (None, s\<lparr>objects := objects s @ [normalize_table ''Commodity'' commodity_names year t_com,
                                            normalize_table ''Industry'' industry_names year t_ind, t],
                   com_ref := Some (length (objects s)),
                   ind_ref := Some (Suc (length (objects s))),
                   all_data_refs := all_data_refs s @ [Suc (Suc (length (objects s)))]\<rparr>))))"
proof (cases "rd (str_int year @ ''_Detail_Commodity'')")
  case (Inl e)
  then show ?thesis by (simp add: try_body_store_def)
next
  case com: (Inr t_com)
  show ?thesis
  proof (cases "rd (str_int year @ ''_Detail_Industry'')")
    case (Inl e)
    with com show ?thesis by (simp add: try_body_store_def new_object_def)
  next
    case ind: (Inr t_ind)
    note chain = in_place_chain[where os = "objects s" and x = t_com and y = t_ind
        and t = "s\<lparr>com_ref := Some (length (objects s)), objects := objects s @ [t_com, t_ind],
                   ind_ref := Some (Suc (length (objects s)))\<rparr>", simplified]
    show ?thesis
      by (simp add: try_body_store_def new_object_def com ind chain normalize_table_def Let_def
          nth_append split: sum.split)
  qed
qed

lemma loop_body_store_cases:
  obtains (raised) os where
      "loop_body_store rd year s =
         s\<lparr>objects := objects s @ os, com_ref := com_ref (loop_body_store rd year s),
           ind_ref := ind_ref (loop_body_store rd year s),
           console := console s @ printed rd year\<rparr>"
      "appended rd year = []"
  | (stored) t_com t_ind t where
      "loop_body_store rd year s =
         s\<lparr>objects := objects s @ [t_com, t_ind, t],
           com_ref := Some (length (objects s)), ind_ref := Some (Suc (length (objects s))),
           all_data_refs := all_data_refs s @ [Suc (Suc (length (objects s)))]\<rparr>"
      "appended rd year = [t]" "printed rd year = []"
proof (cases "rd (str_int year @ ''_Detail_Commodity'')")
  case (Inl e)
  then have "loop_body_store rd year s =
         s\<lparr>objects := objects s @ [], com_ref := com_ref (loop_body_store rd year s),
           ind_ref := ind_ref (loop_body_store rd year s),
           console := console s @ printed rd year\<rparr>" "appended rd year = []"
    by (simp_all add: loop_body_store_def try_body_store_eq printed_def appended_def try_body_normalize)
  then show ?thesis by (rule raised)
next
  case com: (Inr t_com)
  show ?thesis
  proof (cases "rd (str_int year @ ''_Detail_Industry'')")
    case (Inl e)
    with com have "loop_body_store rd year s =
         s\<lparr>objects := objects s @ [t_com], com_ref := com_ref (loop_body_store rd year s),
           ind_ref := ind_ref (loop_body_store rd year s),
           console := console s @ printed rd year\<rparr>" "appended rd year = []"
      by (simp_all add: loop_body_store_def try_body_store_eq printed_def appended_def try_body_normalize)
    then show ?thesis by (rule raised)
  next
    case ind: (Inr t_ind)
    let ?c = "normalize_table ''Commodity'' commodity_names year t_com"
    let ?i = "normalize_table ''Industry'' industry_names year t_ind"
    show ?thesis
    proof (cases "pd_concat [?c, ?i]")
      case (Inl e)
      with com ind have "loop_body_store rd year s =
         s\<lparr>objects := objects s @ [?c, ?i], com_ref := com_ref (loop_body_store rd year s),
           ind_ref := ind_ref (loop_body_store rd year s),
           console := console s @ printed rd year\<rparr>" "appended rd year = []"
        by (simp_all add: loop_body_store_def try_body_store_eq printed_def appended_def try_body_normalize)
      then show ?thesis by (rule raised)
    next
      case (Inr t)
      with com ind have "loop_body_store rd year s =
         s\<lparr>objects := objects s @ [?c, ?i, t],
           com_ref := Some (length (objects s)), ind_ref := Some (Suc (length (objects s))),
           all_data_refs := all_data_refs s @ [Suc (Suc (length (objects s)))]\<rparr>"
        "appended rd year = [t]" "printed rd year = []"
        by (simp_all add: loop_body_store_def try_body_store_eq printed_def appended_def try_body_normalize)
      then show ?thesis by (rule stored)
    qed
  qed
qed

lemma loop_body_store_grows:
  "prefix (objects s) (objects (loop_body_store rd year s))"
  "prefix (all_data_refs s) (all_data_refs (loop_body_store rd year s))"
  "all_data_refs (loop_body_store rd year s) = all_data_refs s
   \<or> all_data_refs (loop_body_store rd year s) = all_data_refs s @ [Suc (Suc (length (objects s)))]"
proof -
  show "prefix (objects s) (objects (loop_body_store rd year s))"
    by (cases rule: loop_body_store_cases[where rd = rd and year = year and s = s]) (erule ssubst, simp)+
  show "prefix (all_data_refs s) (all_data_refs (loop_body_store rd year s))"
    by (cases rule: loop_body_store_cases[where rd = rd and year = year and s = s]) (erule ssubst, simp)+
  show "all_data_refs (loop_body_store rd year s) = all_data_refs s
   \<or> all_data_refs (loop_body_store rd year s) = all_data_refs s @ [Suc (Suc (length (objects s)))]"
    by (cases rule: loop_body_store_cases[where rd = rd and year = year and s = s]) (erule ssubst, simp)+
qed

lemma loop_body_store_tables:
  assumes "refs_ok s"
  shows "tables (loop_body_store rd year s) = tables s @ appended rd year"
    and "refs_ok (loop_body_store rd year s)"
    and "console (loop_body_store rd year s) = console s @ printed rd year"
proof -
  have old: "map (\<lambda>a. (objects s @ os) ! a) (all_data_refs s) = tables s" for os
    unfolding tables_def using assms
    by (intro map_cong[OF refl]) (simp add: refs_ok_def list_all_iff nth_append)
  have ok: "list_all (\<lambda>a. a < length (objects s) + n) (all_data_refs s)" for n
    using assms by (auto simp: refs_ok_def list_all_iff)
  show "tables (loop_body_store rd year s) = tables s @ appended rd year"
  proof (cases rule: loop_body_store_cases[where rd = rd and year = year and s = s])
    case (raised os)
    show ?thesis by (subst raised(1)) (simp add: tables_def old raised(2))
  next
    case (stored t_com t_ind t)
    have new: "(objects s @ [t_com, t_ind, t]) ! Suc (Suc (length (objects s))) = t"
      by (simp add: nth_append)
    show ?thesis by (subst stored(1)) (simp add: tables_def old stored(2) new)
  qed
  show "refs_ok (loop_body_store rd year s)"
  proof (cases rule: loop_body_store_cases[where rd = rd and year = year and s = s])
    case (raised os)
    show ?thesis by (subst raised(1)) (use ok[of "length os"] in \<open>simp add: refs_ok_def\<close>)
  next
    case (stored t_com t_ind t)
    show ?thesis by (subst stored(1)) (use ok[of 3] in \<open>simp add: refs_ok_def eval_nat_numeral\<close>)
  qed
  show "console (loop_body_store rd year s) = console s @ printed rd year"
  proof (cases rule: loop_body_store_cases[where rd = rd and year = year and s = s])
    case (raised os)
    show ?thesis by (subst raised(1)) simp
  next
    case (stored t_com t_ind t)
    show ?thesis by (subst stored(1)) (simp add: stored(3))
  qed
qed

lemma fold_store_grows:
  "prefix (objects s) (objects (fold (loop_body_store rd) years s))"
  "prefix (all_data_refs s) (all_data_refs (fold (loop_body_store rd) years s))"
proof -
  show "prefix (objects s) (objects (fold (loop_body_store rd) years s))"
  proof (induction years arbitrary: s)
    case Nil
    show ?case by simp
  next
    case (Cons y ys)
    from loop_body_store_grows(1)[of s rd y] Cons[of "loop_body_store rd y s"]
    show ?case by (auto intro: prefix_order.trans)
  qed
  show "prefix (all_data_refs s) (all_data_refs (fold (loop_body_store rd) years s))"
  proof (induction years arbitrary: s)
    case Nil
    show ?case by simp
  next
    case (Cons y ys)
    from loop_body_store_grows(2)[of s rd y] Cons[of "loop_body_store rd y s"]
    show ?case by (auto intro: prefix_order.trans)
  qed
qed

lemma fold_store_tables:
  assumes "refs_ok s"
  shows "tables (fold (loop_body_store rd) years s) = tables s @ concat (map (appended rd) years)
       \<and> console (fold (loop_body_store rd) years s) = console s @ concat (map (printed rd) years)"
  using assms
proof (induction years arbitrary: s)
  case Nil
  show ?case by simp
next
  case (Cons y ys)
  from Cons.IH[OF loop_body_store_tables(2)[OF Cons.prems]] loop_body_store_tables(1,3)[OF Cons.prems]
  show ?case by simp
qed

lemma ingest_store_tables:
  "tables (ingest_store rd years) = all_data (ingest rd years)"
  "console (ingest_store rd years) = stdout (ingest rd years)"
  using fold_store_tables[of "\<lparr>objects = [], com_ref = None, ind_ref = None, all_data_refs = [], console = []\<rparr>" rd years]
  by (simp_all add: ingest_store_def refs_ok_def tables_def all_data_ingest stdout_ingest)

section \<open>The example workbooks, run\<close>

lemmas run_simps = try_body_def str_int_def digits.simps digit_def
    setitem_def strip_columns_def rename_def pd_concat_def combined_columns_def reindex_def
    commodity_names_def industry_names_def strip_def is_space_def lookup_def union_columns_def

lemma try_body_full_2015: "try_body rd_full 2015 = Inr (year_table 2015)"
  by (simp add: run_simps rd_full_def read_excel_def book_full_def commodity_sheet_def
      industry_sheet_def year_table_def)

lemma try_body_full_2016: "try_body rd_full 2016 = Inr (year_table 2016)"
  by (simp add: run_simps rd_full_def read_excel_def book_full_def commodity_sheet_def
      industry_sheet_def year_table_def)

lemma combined_full: "combined rd_full [2015, 2016] = Inr table_full"
  by (simp add: combined_def all_data_ingest appended_def try_body_full_2015 try_body_full_2016
      pd_concat_def combined_columns_def reindex_def year_table_def table_full_def)

lemma ingested_full: "filter (ingested rd_full) [2015, 2016] = [2015, 2016]"
  by (simp add: ingested_def try_body_full_2015 try_body_full_2016)

lemma plain_full_2015: "plain_year rd_full 2015"
  by (simp add: plain_year_def plain_tags_def wf_frame_def normalize_table_def run_simps rd_full_def
      read_excel_def book_full_def commodity_sheet_def industry_sheet_def)

lemma plain_full_2016: "plain_year rd_full 2016"
  by (simp add: plain_year_def plain_tags_def wf_frame_def normalize_table_def run_simps rd_full_def
      read_excel_def book_full_def commodity_sheet_def industry_sheet_def)

lemma year_rows_full: "year_rows rd_full 2015 = 3" "year_rows rd_full 2016 = 3"
  by (simp_all add: year_rows_def nrows_def rd_full_def read_excel_def book_full_def str_int_def
      digits.simps digit_def commodity_sheet_def industry_sheet_def)

lemma try_body_gap_2012: "try_body rd_gap 2012 = Inr (year_table 2012)"
  by (simp add: run_simps rd_gap_def read_excel_def book_gap_def commodity_sheet_def
      industry_sheet_def year_table_def)

lemma try_body_gap_2013: "try_body rd_gap 2013 = Inl gap_error"
  by (simp add: run_simps rd_gap_def read_excel_def book_gap_def gap_error_def)

lemma try_body_gap_2014: "try_body rd_gap 2014 = Inr (year_table 2014)"
  by (simp add: run_simps rd_gap_def read_excel_def book_gap_def commodity_sheet_def
      industry_sheet_def year_table_def)

lemma sheet_names:
  "str_int 2015 @ ''_Detail_Commodity'' = ''2015_Detail_Commodity''"
  "str_int 2015 @ ''_Detail_Industry'' = ''2015_Detail_Industry''"
  "str_int 2016 @ ''_Detail_Commodity'' = ''2016_Detail_Commodity''"
  "str_int 2016 @ ''_Detail_Industry'' = ''2016_Detail_Industry''"
  by (simp_all add: str_int_def digits.simps digit_def)

lemma shared_ok_headers: "shared_ok shared_headers"
  by (simp add: shared_ok_def shared_headers_def reserved_labels_def)

lemma detail_commodity_ok: "detail_sheet ''Commodity'' shared_headers detail_commodity"
  by (simp add: detail_sheet_def wf_frame_def detail_commodity_def shared_headers_def strip_def
      is_space_def)

lemma detail_industry_ok: "detail_sheet ''Industry'' shared_headers detail_industry"
  by (simp add: detail_sheet_def wf_frame_def detail_industry_def shared_headers_def strip_def
      is_space_def)

lemma rd_detail_reads:
  "rd_detail ''2015_Detail_Commodity'' = Inr detail_commodity"
  "rd_detail ''2015_Detail_Industry'' = Inr detail_industry"
  "rd_detail ''2016_Detail_Commodity'' = Inr detail_commodity"
  "rd_detail ''2016_Detail_Industry'' = Inr detail_industry"
  by (simp_all add: rd_detail_def read_excel_def book_detail_def)

lemma on_schema_detail: "on_schema shared_headers rd_detail 2015" "on_schema shared_headers rd_detail 2016"
  by (simp_all add: on_schema_def sheet_names rd_detail_reads detail_commodity_ok detail_industry_ok)

lemma ingested_detail: "filter (ingested rd_detail) [2015, 2016] = [2015, 2016]"
  using on_schema_year(3)[OF on_schema_detail(1) shared_ok_headers]
    on_schema_year(3)[OF on_schema_detail(2) shared_ok_headers]
  by (simp add: sheet_names rd_detail_reads)

lemma year_tags_detail:
  "year_tags rd_detail 2015 =
     [([Text ''Commodity''], [Whole 2015]), ([Text ''Commodity''], [Whole 2015]),
      ([Text ''Industry''], [Whole 2015])]"
  "year_tags rd_detail 2016 =
     [([Text ''Commodity''], [Whole 2016]), ([Text ''Commodity''], [Whole 2016]),
      ([Text ''Industry''], [Whole 2016])]"
  by (simp_all add: year_tags_def sheet_names rd_detail_reads nrows_def detail_commodity_def
      detail_industry_def)

lemma read_failure_raises:
  "rd (str_int year @ ''_Detail_Commodity'') = Inl e \<Longrightarrow> try_body rd year = Inl e"
  "rd (str_int year @ ''_Detail_Commodity'') = Inr df \<Longrightarrow>
   rd (str_int year @ ''_Detail_Industry'') = Inl e \<Longrightarrow> try_body rd year = Inl e"
  by (simp_all add: try_body_def)



section \<open>The properties\<close>

text \<open>
  C1. When the body of the \<^verbatim>\<open>try\<close> raises for a year, be it while reading one of
  the two sheets (\<open>read_failure_raises\<close>) or while transforming them, the iteration
  only prints one line, which holds the year and the message of the exception; the list
  \<^verbatim>\<open>all_data\<close> ends up as if the year had not been asked for, the tables of the years
  before it stay at the front of the list, and the loop goes on with the years after it.
\<close>

theorem failed_year_is_skipped:
  assumes "try_body rd year = Inl e"
  shows "loop_body rd year s =
           s\<lparr>stdout := stdout s @ [''Error processing year '' @ str_int year @ '': '' @ str e]\<rparr>
       \<and> all_data (ingest rd (before @ year # after)) = all_data (ingest rd (before @ after))
       \<and> prefix (all_data (ingest rd before)) (all_data (ingest rd (before @ year # after)))
       \<and> ingest rd (before @ year # after) =
           fold (loop_body rd) after
             ((ingest rd before)\<lparr>stdout := stdout (ingest rd before)
                @ [''Error processing year '' @ str_int year @ '': '' @ str e]\<rparr>)"
proof -
  let ?line = "''Error processing year '' @ str_int year @ '': '' @ str e"
  have step: "loop_body rd year s = s\<lparr>stdout := stdout s @ [?line]\<rparr>" for s
    using assms by (simp add: loop_body_def)
  have same: "all_data (ingest rd (before @ year # after)) = all_data (ingest rd (before @ after))"
    using assms by (simp add: all_data_ingest appended_def)
  have front: "prefix (all_data (ingest rd before)) (all_data (ingest rd (before @ year # after)))"
    by (simp add: all_data_ingest)
  have "ingest rd (before @ year # after) =
          fold (loop_body rd) after (loop_body rd year (ingest rd before))"
    by (simp add: ingest_def)
  then have on: "ingest rd (before @ year # after) =
          fold (loop_body rd) after ((ingest rd before)\<lparr>stdout := stdout (ingest rd before) @ [?line]\<rparr>)"
    by (simp only: step)
  from step same front on show ?thesis by blast
qed

theorem failed_year_is_skipped_witness:
  "try_body rd_gap 2013 = Inl gap_error
   \<and> all_data (ingest rd_gap [2012, 2013, 2014]) = [year_table 2012, year_table 2014]
   \<and> stdout (ingest rd_gap [2012, 2013, 2014]) =
       [''Error processing year 2013: Worksheet named '' @ [CHR 0x27] @ ''2013_Detail_Industry''
        @ [CHR 0x27] @ '' not found'']"
proof -
  have h: "try_body rd_gap 2013 = Inl gap_error" by (rule try_body_gap_2013)
  have "all_data (ingest rd_gap ([2012] @ 2013 # [2014])) = all_data (ingest rd_gap ([2012] @ [2014]))"
    using failed_year_is_skipped[OF h] by blast
  then have "all_data (ingest rd_gap [2012, 2013, 2014]) = [year_table 2012, year_table 2014]"
    by (simp add: all_data_ingest appended_def try_body_gap_2012 try_body_gap_2014)
  moreover have "stdout (ingest rd_gap [2012, 2013, 2014]) =
       [''Error processing year 2013: Worksheet named '' @ [CHR 0x27] @ ''2013_Detail_Industry''
        @ [CHR 0x27] @ '' not found'']"
    by (simp add: stdout_ingest printed_def try_body_gap_2012 try_body_gap_2013 try_body_gap_2014
        gap_error_def str_int_def digits.simps digit_def)
  ultimately show ?thesis using h by simp
qed

text \<open>
  C2. For a year whose two sheets are read and have the column set of the specification:
  the body of the \<^verbatim>\<open>try\<close> concatenates the commodity table renamed with
  \<open>{Commodity Code \<rightarrow> Code, Commodity Name \<rightarrow> Name}\<close> and the industry table renamed with
  \<open>{Industry Code \<rightarrow> Code, Industry Name \<rightarrow> Name}\<close>, both after the tags and the stripping;
  each renaming maps the labels of its table one to one onto the labels of the renamed
  table; the two renamed tables have the same labels, \<open>Code\<close>, \<open>Name\<close>, the shared
  headers, \<open>Source\<close>, \<open>Year\<close>; and the body yields a table with these labels, which is
  what the iteration appends.
\<close>

theorem renaming_unifies_schemas:
  assumes "rd (str_int year @ ''_Detail_Commodity'') = Inr df_com"
    and "rd (str_int year @ ''_Detail_Industry'') = Inr df_ind"
    and "detail_sheet ''Commodity'' rest df_com" and "detail_sheet ''Industry'' rest df_ind"
    and "shared_ok rest"
  shows "try_body rd year =
           pd_concat [rename (before_rename ''Commodity'' year df_com) commodity_names,
                      rename (before_rename ''Industry'' year df_ind) industry_names]
       \<and> map_of commodity_names = [''Commodity Code'' \<mapsto> ''Code'', ''Commodity Name'' \<mapsto> ''Name'']
       \<and> map_of industry_names = [''Industry Code'' \<mapsto> ''Code'', ''Industry Name'' \<mapsto> ''Name'']
       \<and> bij_betw (rename_label commodity_names)
            (set (columns (before_rename ''Commodity'' year df_com)))
            (set (columns (rename (before_rename ''Commodity'' year df_com) commodity_names)))
       \<and> bij_betw (rename_label industry_names)
            (set (columns (before_rename ''Industry'' year df_ind)))
            (set (columns (rename (before_rename ''Industry'' year df_ind) industry_names)))
       \<and> columns (rename (before_rename ''Commodity'' year df_com) commodity_names)
           = [Lbl ''Code'', Lbl ''Name''] @ rest @ [Lbl ''Source'', Lbl ''Year'']
       \<and> columns (rename (before_rename ''Industry'' year df_ind) industry_names)
           = [Lbl ''Code'', Lbl ''Name''] @ rest @ [Lbl ''Source'', Lbl ''Year'']
       \<and> (\<exists>df. try_body rd year = Inr df \<and> appended rd year = [df]
              \<and> columns df = [Lbl ''Code'', Lbl ''Name''] @ rest @ [Lbl ''Source'', Lbl ''Year''])"
proof -
  have body: "try_body rd year =
           pd_concat [rename (before_rename ''Commodity'' year df_com) commodity_names,
                      rename (before_rename ''Industry'' year df_ind) industry_names]"
    using assms(1,2) by (simp add: try_body_normalize normalize_table_rename)
  have sc: "strip_label ` set (columns df_com) = {Lbl ''Commodity Code'', Lbl ''Commodity Name''} \<union> set rest"
    using assms(3) by (simp add: detail_sheet_def flip: set_map)
  have si: "strip_label ` set (columns df_ind) = {Lbl ''Industry Code'', Lbl ''Industry Name''} \<union> set rest"
    using assms(4) by (simp add: detail_sheet_def flip: set_map)
  have r: "set rest \<inter> {Lbl ''Commodity Code'', Lbl ''Commodity Name'', Lbl ''Industry Code'',
                Lbl ''Industry Name'', Lbl ''Code'', Lbl ''Name''} = {}"
    using assms(5) by (auto simp: shared_ok_def reserved_labels_def list_all_iff)
  note sets = renaming_bijective[OF sc si r, of year, unfolded normalize_table_rename]
  have cc: "columns (rename (before_rename ''Commodity'' year df_com) commodity_names)
           = [Lbl ''Code'', Lbl ''Name''] @ rest @ [Lbl ''Source'', Lbl ''Year'']"
    using columns_detail_commodity(2)[OF assms(3,5), of year]
    by (simp add: normalize_table_rename unified_columns_def)
  have ci: "columns (rename (before_rename ''Industry'' year df_ind) industry_names)
           = [Lbl ''Code'', Lbl ''Name''] @ rest @ [Lbl ''Source'', Lbl ''Year'']"
    using columns_detail_industry(2)[OF assms(4,5), of year]
    by (simp add: normalize_table_rename unified_columns_def)
  have "\<exists>df. try_body rd year = Inr df \<and> appended rd year = [df]
              \<and> columns df = [Lbl ''Code'', Lbl ''Name''] @ rest @ [Lbl ''Source'', Lbl ''Year'']"
    using try_body_detail[OF assms] by (simp add: appended_def unified_columns_def)
  with body sets cc ci show ?thesis by blast
qed

theorem renaming_unifies_schemas_witness:
  "rd_detail (str_int 2015 @ ''_Detail_Commodity'') = Inr detail_commodity
   \<and> rd_detail (str_int 2015 @ ''_Detail_Industry'') = Inr detail_industry
   \<and> detail_sheet ''Commodity'' shared_headers detail_commodity
   \<and> detail_sheet ''Industry'' shared_headers detail_industry
   \<and> shared_ok shared_headers
   \<and> columns (rename (before_rename ''Commodity'' 2015 detail_commodity) commodity_names)
       = columns (rename (before_rename ''Industry'' 2015 detail_industry) industry_names)
   \<and> (\<exists>df. try_body rd_detail 2015 = Inr df \<and> appended rd_detail 2015 = [df]
          \<and> columns df = [Lbl ''Code'', Lbl ''Name''] @ shared_headers @ [Lbl ''Source'', Lbl ''Year''])"
proof -
  have c: "rd_detail (str_int 2015 @ ''_Detail_Commodity'') = Inr detail_commodity"
    and i: "rd_detail (str_int 2015 @ ''_Detail_Industry'') = Inr detail_industry"
    by (simp_all add: sheet_names rd_detail_reads)
  note t = renaming_unifies_schemas[OF c i detail_commodity_ok detail_industry_ok shared_ok_headers]
  from t have "columns (rename (before_rename ''Commodity'' 2015 detail_commodity) commodity_names)
       = columns (rename (before_rename ''Industry'' 2015 detail_industry) industry_names)"
    by simp
  moreover from t have "\<exists>df. try_body rd_detail 2015 = Inr df \<and> appended rd_detail 2015 = [df]
          \<and> columns df = [Lbl ''Code'', Lbl ''Name''] @ shared_headers @ [Lbl ''Source'', Lbl ''Year'']"
    by blast
  ultimately show ?thesis
    using c i detail_commodity_ok detail_industry_ok shared_ok_headers by blast
qed

text \<open>
  C3, as the notebook has it. An iteration that succeeds appends one table, the
  concatenation of the normalized commodity table and the normalized industry table, and
  not two tables: after the loop the length of \<^verbatim>\<open>all_data\<close> is the number of the years
  ingested, and the list holds, year by year, what the body of the \<^verbatim>\<open>try\<close> has built.
\<close>

theorem one_table_per_ingested_year:
  "length (all_data (ingest rd years)) = length (filter (ingested rd) years)
   \<and> all_data (ingest rd years) = concat (map (appended rd) years)"
  by (simp add: all_data_ingest length_concat_appended)

text \<open>
  As the specification words it, with twice the number of the years ingested, the property fails for the year 2015
  of the full workbook: the year is ingested and the list has one entry.
\<close>

theorem two_tables_per_year_counterexample:
  "filter (ingested rd_full) [2015] = [2015]
   \<and> all_data (ingest rd_full [2015]) = [year_table 2015]
   \<and> length (all_data (ingest rd_full [2015])) \<noteq> 2 * length (filter (ingested rd_full) [2015])"
  by (simp add: all_data_ingest appended_def ingested_def try_body_full_2015)

text \<open>
  C4. The rows of the combined table are the rows of the years ingested, in the order of
  the years, and within a year the rows of the normalized commodity table come first and
  those of the normalized industry table after them, each in the order of its sheet: row
  by row, the record of the combined table carries the record of the source, on any
  labels \<open>cs\<close>.
\<close>

theorem rows_in_order:
  assumes "combined rd years = Inr df"
  shows "list_all2 (carried cs)
           (concat (map (year_records rd) (filter (ingested rd) years))) (records df)"
proof -
  have "records df = concat (map (year_records rd) (filter (ingested rd) years))"
    using records_pd_concat[OF assms[unfolded combined_def]]
    by (simp add: all_data_ingest concat_over_years records_appended)
  then show ?thesis by (simp add: carried_refl)
qed

theorem rows_in_order_witness:
  "combined rd_full [2015, 2016] = Inr table_full
   \<and> list_all2 (carried [Lbl ''Code'', Lbl ''Name'', Lbl ''Substance'', Lbl ''Source''])
       (year_records rd_full 2015 @ year_records rd_full 2016) (records table_full)
   \<and> map (\<lambda>f. (f (Lbl ''Name''), f (Lbl ''Substance''), f (Lbl ''Source''))) (records table_full) =
       [(Text ''Fresh soybeans'', Text ''carbon dioxide'', Text ''Commodity''),
        (Text ''Fresh soybeans'', Text ''methane'', Text ''Commodity''),
        (Text ''Oilseed farming'', Text ''carbon dioxide'', Text ''Industry''),
        (Text ''Fresh soybeans'', Text ''carbon dioxide'', Text ''Commodity''),
        (Text ''Fresh soybeans'', Text ''methane'', Text ''Commodity''),
        (Text ''Oilseed farming'', Text ''carbon dioxide'', Text ''Industry'')]"
proof -
  have "list_all2 (carried [Lbl ''Code'', Lbl ''Name'', Lbl ''Substance'', Lbl ''Source''])
       (year_records rd_full 2015 @ year_records rd_full 2016) (records table_full)"
    using rows_in_order[OF combined_full] unfolding ingested_full by simp
  moreover have "map (\<lambda>f. (f (Lbl ''Name''), f (Lbl ''Substance''), f (Lbl ''Source''))) (records table_full) =
       [(Text ''Fresh soybeans'', Text ''carbon dioxide'', Text ''Commodity''),
        (Text ''Fresh soybeans'', Text ''methane'', Text ''Commodity''),
        (Text ''Oilseed farming'', Text ''carbon dioxide'', Text ''Industry''),
        (Text ''Fresh soybeans'', Text ''carbon dioxide'', Text ''Commodity''),
        (Text ''Fresh soybeans'', Text ''methane'', Text ''Commodity''),
        (Text ''Oilseed farming'', Text ''carbon dioxide'', Text ''Industry'')]"
    by (simp add: records_def table_full_def year_table_def lookup_def)
  ultimately show ?thesis using combined_full by simp
qed

text \<open>
  C5, as the notebook has it. The combined table has as many rows as the two sheets of the
  years ingested have together: no concatenation adds or drops a row. The sum runs over
  the years ingested, not over the sheets read.
\<close>

theorem rows_are_counted:
  assumes "combined rd years = Inr df"
  shows "nrows df = sum_list (map (year_rows rd) (filter (ingested rd) years))"
  using nrows_pd_concat[OF assms[unfolded combined_def]]
  by (simp add: all_data_ingest sum_over_years)

theorem rows_are_counted_witness:
  "combined rd_full [2015, 2016] = Inr table_full
   \<and> nrows table_full = year_rows rd_full 2015 + year_rows rd_full 2016
   \<and> nrows table_full = 6"
  using rows_are_counted[OF combined_full] combined_full unfolding ingested_full
  by (simp add: year_rows_full)

text \<open>
  As the specification words it, with the sum over the sheets read, the property fails when the industry sheet of
  2013 is missing: the commodity sheet of 2013 is read, and its two rows are not in the
  combined table.
\<close>

theorem rows_of_sheets_read_counterexample:
  "combined rd_gap [2012, 2013] = Inr (year_table 2012)
   \<and> nrows (year_table 2012) = 3
   \<and> sum_list (map (read_rows rd_gap) [2012, 2013]) = 5
   \<and> nrows (year_table 2012) \<noteq> sum_list (map (read_rows rd_gap) [2012, 2013])"
proof -
  have "combined rd_gap [2012, 2013] = Inr (year_table 2012)"
    by (simp add: combined_def all_data_ingest appended_def try_body_gap_2012 try_body_gap_2013
        pd_concat_def combined_columns_def reindex_def)
  moreover have "nrows (year_table 2012) = 3"
    by (simp add: nrows_def year_table_def)
  moreover have "sum_list (map (read_rows rd_gap) [2012, 2013]) = 5"
    by (simp add: read_rows_def nrows_def rd_gap_def read_excel_def book_gap_def str_int_def
        digits.simps digit_def commodity_sheet_def industry_sheet_def)
  ultimately show ?thesis by simp
qed



text \<open>
  C7. When the sheets read have the column set of the specification and some year is
  ingested, there is a combined table, and its rows are, for each year ingested in the
  order of the loop, first as many rows as the commodity sheet has, each with the source
  \<^verbatim>\<open>Commodity\<close> and the year, then as many rows as the industry sheet has, each with
  the source \<^verbatim>\<open>Industry\<close> and the year.
\<close>

theorem two_groups_per_year:
  assumes "list_all (on_schema rest rd) years" and "shared_ok rest"
    and "filter (ingested rd) years \<noteq> []"
  shows "\<exists>df. combined rd years = Inr df
            \<and> tags df = concat (map (year_tags rd) (filter (ingested rd) years))"
proof -
  from combined_on_schema[OF assms] obtain df where df: "combined rd years = Inr df" by blast
  have "list_all (plain_year rd) (filter (ingested rd) years)"
    using assms(1) on_schema_year(1)[OF _ assms(2)] by (auto simp: list_all_iff)
  from tags_combined[OF df this] df show ?thesis by blast
qed

theorem two_groups_per_year_witness:
  "list_all (on_schema shared_headers rd_detail) [2015, 2016] \<and> shared_ok shared_headers
   \<and> filter (ingested rd_detail) [2015, 2016] = [2015, 2016]
   \<and> (\<exists>df. combined rd_detail [2015, 2016] = Inr df
         \<and> tags df =
             [([Text ''Commodity''], [Whole 2015]), ([Text ''Commodity''], [Whole 2015]),
              ([Text ''Industry''], [Whole 2015]),
              ([Text ''Commodity''], [Whole 2016]), ([Text ''Commodity''], [Whole 2016]),
              ([Text ''Industry''], [Whole 2016])])"
proof -
  have s: "list_all (on_schema shared_headers rd_detail) [2015, 2016]"
    by (simp add: on_schema_detail)
  have ne: "filter (ingested rd_detail) [2015, 2016] \<noteq> []"
    unfolding ingested_detail by simp
  from two_groups_per_year[OF s shared_ok_headers ne]
  have "\<exists>df. combined rd_detail [2015, 2016] = Inr df
         \<and> tags df = year_tags rd_detail 2015 @ year_tags rd_detail 2016"
    unfolding ingested_detail by simp
  then show ?thesis
    using s shared_ok_headers ingested_detail by (simp add: year_tags_detail)
qed

text \<open>
  C8. No label of a normalized table has white space at either end: the labels are
  stripped before the renaming, the renaming puts \<open>Code\<close> and \<open>Name\<close> in, and so it is
  for every table of \<^verbatim>\<open>all_data\<close>.
\<close>

theorem headers_are_stripped:
  "list_all no_outer_space (columns (before_rename src year df))
   \<and> list_all no_outer_space (columns (normalize_table ''Commodity'' commodity_names year df_com))
   \<and> list_all no_outer_space (columns (normalize_table ''Industry'' industry_names year df_ind))
   \<and> list_all (\<lambda>df. list_all no_outer_space (columns df)) (all_data (ingest rd years))"
proof -
  have "list_all (\<lambda>df. list_all no_outer_space (columns df)) (all_data (ingest rd years))"
    using no_outer_space_appended[of rd] by (auto simp: all_data_ingest list_all_iff)
  then show ?thesis by (simp add: no_outer_space_normalize no_outer_space_before)
qed

theorem headers_are_stripped_witness:
  "columns commodity_sheet = [Lbl ''Commodity Code'', Lbl ''Commodity Name '', Lbl ''Substance'']
   \<and> columns (normalize_table ''Commodity'' commodity_names 2015 commodity_sheet) =
       [Lbl ''Code'', Lbl ''Name'', Lbl ''Substance'', Lbl ''Source'', Lbl ''Year'']
   \<and> list_all no_outer_space (columns (normalize_table ''Commodity'' commodity_names 2015 commodity_sheet))"
proof -
  have "list_all no_outer_space (columns (normalize_table ''Commodity'' commodity_names 2015 commodity_sheet))"
    using headers_are_stripped[where year = 2015 and df_com = commodity_sheet] by blast
  moreover have "columns (normalize_table ''Commodity'' commodity_names 2015 commodity_sheet) =
       [Lbl ''Code'', Lbl ''Name'', Lbl ''Substance'', Lbl ''Source'', Lbl ''Year'']"
    by (simp add: normalize_table_def run_simps commodity_sheet_def)
  moreover have "columns commodity_sheet = [Lbl ''Commodity Code'', Lbl ''Commodity Name '', Lbl ''Substance'']"
    by (simp add: commodity_sheet_def)
  ultimately show ?thesis by blast
qed

text \<open>
  C9. When no year is ingested the list \<^verbatim>\<open>all_data\<close> is empty after the loop, and the
  concatenation after the loop raises \<^verbatim>\<open>ValueError\<close>: there is no combined table.
\<close>

theorem nothing_ingested_no_table:
  assumes "list_all (\<lambda>y. \<not> ingested rd y) years"
  shows "all_data (ingest rd years) = []
       \<and> combined rd years = Inl (ValueError ''No objects to concatenate'')"
proof -
  have "concat (map (appended rd) years) = []"
    using assms by (induction years) (auto simp: appended_def ingested_def split: sum.splits)
  then show ?thesis
    by (simp add: combined_def all_data_ingest pd_concat_def)
qed

theorem nothing_ingested_no_table_witness:
  "list_all (\<lambda>y. \<not> ingested (read_excel excel_file (NoFile :: unit workbook)) y) [2015, 2016]
   \<and> combined (read_excel excel_file (NoFile :: unit workbook)) [2015, 2016]
       = Inl (ValueError ''No objects to concatenate'')"
proof -
  have h: "list_all (\<lambda>y. \<not> ingested (read_excel excel_file (NoFile :: unit workbook)) y) [2015, 2016]"
    by (simp add: ingested_def try_body_def read_excel_def)
  from nothing_ingested_no_table[OF h] h show ?thesis by simp
qed

text \<open>
  C10. On the store: an iteration leaves the references of \<^verbatim>\<open>all_data\<close> as they are
  or appends one reference, to an object made in this iteration; whatever the number of
  iterations, the objects that exist before them are the same after them, and the
  references are still the front of the list. So the tables that \<^verbatim>\<open>all_data\<close> refers
  to after some of the years are the front of the tables after more years. On the values:
  an iteration leaves the list as it is or appends one table, and the list an iteration
  starts from is the front of the list later.
\<close>

theorem all_data_append_only:
  "(all_data_refs (loop_body_store rd year s) = all_data_refs s
      \<or> all_data_refs (loop_body_store rd year s) = all_data_refs s @ [Suc (Suc (length (objects s)))])
   \<and> prefix (objects s) (objects (fold (loop_body_store rd) years s))
   \<and> prefix (all_data_refs s) (all_data_refs (fold (loop_body_store rd) years s))
   \<and> prefix (tables (ingest_store rd before)) (tables (ingest_store rd (before @ after)))
   \<and> (all_data (loop_body rd year v) = all_data v
        \<or> (\<exists>df. all_data (loop_body rd year v) = all_data v @ [df]))
   \<and> prefix (all_data v) (all_data (fold (loop_body rd) years v))"
proof -
  have "prefix (tables (ingest_store rd before)) (tables (ingest_store rd (before @ after)))"
    by (simp add: ingest_store_tables all_data_ingest)
  moreover have "(all_data (loop_body rd year v) = all_data v
        \<or> (\<exists>df. all_data (loop_body rd year v) = all_data v @ [df]))
      \<and> prefix (all_data v) (all_data (fold (loop_body rd) years v))"
    by (simp add: loop_body_def fold_loop_body split: sum.split)
  ultimately show ?thesis
    using loop_body_store_grows(3)[of rd year s] fold_store_grows[of s rd years] by simp
qed

end
